theory Spec2Isabelle
  imports Complex_Main "HOL-Library.Sublist"
begin

section \<open>Python values used by the editor\<close>

text \<open>
  The embedding follows \<^verbatim>\<open>ZPL_visual_editor.py\<close>. Python integers are \<^typ>\<open>int\<close>,
  Python strings are \<^typ>\<open>string\<close> (characters with code points below 256), and every
  operation of the source that can raise returns a sum whose left side is the exception.
\<close>

datatype error = ValueError | IndexError | ZeroDivisionError | TypeError | OSError

definition startswith :: "string \<Rightarrow> string \<Rightarrow> bool" where
  "startswith s p = (take (length p) s = p)"

text \<open>\<^verbatim>\<open>str.isspace\<close> on the code points below 256.\<close>

definition isspace :: "char \<Rightarrow> bool" where
  "isspace c = ((of_char c :: nat) \<in> {9, 10, 11, 12, 13, 28, 29, 30, 31, 32, 133, 160})"

definition strip :: "string \<Rightarrow> string" where
  "strip s = rev (dropWhile isspace (rev (dropWhile isspace s)))"

text \<open>\<^verbatim>\<open>content.split('\n')\<close>: the pieces between line feeds, the last one included.\<close>

fun split_acc :: "string \<Rightarrow> string \<Rightarrow> string list" where
  "split_acc cur [] = [cur]"
| "split_acc cur (c # cs) =
     (if c = CHR 0x0A then cur # split_acc [] cs else split_acc (cur @ [c]) cs)"

definition split_lines :: "string \<Rightarrow> string list" where
  "split_lines content = split_acc [] content"

text \<open>\<^verbatim>\<open>s.replace(pat, '')\<close> for a non-empty pattern: occurrences are removed from left
  to right without overlap; the counter is the number of characters of a found occurrence
  still to be dropped.\<close>

fun remove_acc :: "nat \<Rightarrow> string \<Rightarrow> string \<Rightarrow> string" where
  "remove_acc k pat [] = []"
| "remove_acc k pat (c # cs) =
     (if 0 < k then remove_acc (k - 1) pat cs
      else if startswith (c # cs) pat then remove_acc (length pat - 1) pat cs
      else c # remove_acc 0 pat cs)"

definition remove_all :: "string \<Rightarrow> string \<Rightarrow> string" where
  "remove_all pat s = remove_acc 0 pat s"

text \<open>\<^verbatim>\<open>str.upper\<close> on ASCII letters (other characters are kept).\<close>

definition upper_char :: "char \<Rightarrow> char" where
  "upper_char c =
     (if 97 \<le> (of_char c :: nat) \<and> (of_char c :: nat) \<le> 122
      then char_of ((of_char c :: nat) - 32) else c)"

definition upper :: "string \<Rightarrow> string" where
  "upper s = map upper_char s"

subsection \<open>Integers and their decimal text\<close>

definition is_digit :: "char \<Rightarrow> bool" where
  "is_digit c = (48 \<le> (of_char c :: nat) \<and> (of_char c :: nat) \<le> 57)"

definition digit_val :: "char \<Rightarrow> nat" where
  "digit_val c = (of_char c :: nat) - 48"

definition digit_char :: "nat \<Rightarrow> char" where
  "digit_char d = ''0123456789'' ! d"

fun str_nat :: "nat \<Rightarrow> string" where
  "str_nat n = (if n < 10 then [digit_char n] else str_nat (n div 10) @ [digit_char (n mod 10)])"

declare str_nat.simps [simp del]

text \<open>\<^verbatim>\<open>str(v)\<close>, as an f-string formats an integer.\<close>

definition str_int :: "int \<Rightarrow> string" where
  "str_int v = (if v < 0 then CHR ''-'' # str_nat (nat (- v)) else str_nat (nat v))"

text \<open>\<^verbatim>\<open>int(s)\<close> on the strings the decoder passes to it: a non-empty run of decimal
  digits is its value, anything else raises \<^verbatim>\<open>ValueError\<close>.\<close>

definition py_int :: "string \<Rightarrow> error + int" where
  "py_int s =
     (if s \<noteq> [] \<and> list_all is_digit s
      then Inr (int (foldl (\<lambda>acc c. acc * 10 + digit_val c) 0 s))
      else Inl ValueError)"

text \<open>\<^verbatim>\<open>xs[i]\<close> for a non-negative index.\<close>

definition py_index :: "'a list \<Rightarrow> nat \<Rightarrow> error + 'a" where
  "py_index xs i = (if i < length xs then Inr (xs ! i) else Inl IndexError)"

text \<open>\<^verbatim>\<open>re.findall(r'\d+', line)\<close>: the maximal runs of digits, left to right.\<close>

fun findall_acc :: "string \<Rightarrow> string \<Rightarrow> string list" where
  "findall_acc cur [] = (if cur = [] then [] else [cur])"
| "findall_acc cur (c # cs) =
     (if is_digit c then findall_acc (cur @ [c]) cs
      else (if cur = [] then [] else [cur]) @ findall_acc [] cs)"

definition findall_digits :: "string \<Rightarrow> string list" where
  "findall_digits line = findall_acc [] line"

definition is_upper_or_digit :: "char \<Rightarrow> bool" where
  "is_upper_or_digit c = ((65 \<le> (of_char c :: nat) \<and> (of_char c :: nat) \<le> 90) \<or> is_digit c)"

text \<open>\<^verbatim>\<open>re.match(r'\^A([A-Z0-9]),N,(\d+)', line)\<close>: the two groups when it matches.\<close>

definition font_match :: "string \<Rightarrow> (string \<times> string) option" where
  "font_match line =
     (case line of
        c1 # c2 # c3 # c4 # c5 # c6 # rest \<Rightarrow>
          if c1 = CHR ''^'' \<and> c2 = CHR ''A'' \<and> is_upper_or_digit c3 \<and> c4 = CHR '','' \<and>
             c5 = CHR ''N'' \<and> c6 = CHR '','' \<and> takeWhile is_digit rest \<noteq> []
          then Some ([c3], takeWhile is_digit rest) else None
      | _ \<Rightarrow> None)"

text \<open>\<^verbatim>\<open>re.match(r'\^B([A-Z0-9]+)', line)\<close>: the group when it matches.\<close>

definition barcode_match :: "string \<Rightarrow> string option" where
  "barcode_match line =
     (if startswith line ''^B'' \<and> takeWhile is_upper_or_digit (drop 2 line) \<noteq> []
      then Some (takeWhile is_upper_or_digit (drop 2 line)) else None)"

section \<open>Data model\<close>

text \<open>The fields of \<^verbatim>\<open>LabelSettings\<close>; the two float fields are carried as rationals and
  never computed with.\<close>

record LabelSettings =
  width_mm :: rat
  height_mm :: rat
  dpi :: int
  border :: bool
  orientation :: string
  snap_to_grid_on :: bool
  grid_size :: int

definition LabelSettings_default :: LabelSettings where
  "LabelSettings_default =
     \<lparr>width_mm = 100, height_mm = 50, dpi = 203, border = False, orientation = ''Portrait'',
      snap_to_grid_on = False, grid_size = 10\<rparr>"

text \<open>The fields of \<^verbatim>\<open>ZPLObject\<close>, in the order of the dataclass; all but \<open>obj_type\<close>
  carry the prefix \<open>o_\<close>.\<close>

record ZPLObject =
  obj_type :: string
  o_x :: int
  o_y :: int
  o_width :: int
  o_height :: int
  o_text :: string
  o_font_size :: string
  o_font_type :: string
  o_rotation :: int
  o_thickness :: int
  o_barcode_type :: string
  o_line_thickness :: int
  o_selected :: bool
  o_id :: string
  o_bar_module :: int
  o_bar_ratio :: int
  o_bar_height :: int
  o_hri_above :: bool

text \<open>\<^verbatim>\<open>__post_init__\<close>: an empty id is replaced by the first eight characters of a new
  UUID string \<open>u\<close> (the value of \<^verbatim>\<open>str(uuid.uuid4())\<close>, an input of the model).\<close>

definition post_init :: "string \<Rightarrow> ZPLObject \<Rightarrow> ZPLObject" where
  "post_init u obj = (if o_id obj = [] then obj\<lparr>o_id := take 8 u\<rparr> else obj)"

text \<open>The generated constructor followed by \<^verbatim>\<open>__post_init__\<close>.\<close>

definition mk_ZPLObject ::
  "string \<Rightarrow> string \<Rightarrow> int \<Rightarrow> int \<Rightarrow> int \<Rightarrow> int \<Rightarrow> string \<Rightarrow> string \<Rightarrow> string \<Rightarrow> int \<Rightarrow> int \<Rightarrow>
   string \<Rightarrow> int \<Rightarrow> bool \<Rightarrow> string \<Rightarrow> int \<Rightarrow> int \<Rightarrow> int \<Rightarrow> bool \<Rightarrow> ZPLObject" where
  "mk_ZPLObject u ty x y w h txt fsize ftype rot th bt lt sel ident bm br bh hri =
     post_init u
       \<lparr>obj_type = ty, o_x = x, o_y = y, o_width = w, o_height = h, o_text = txt,
        o_font_size = fsize, o_font_type = ftype, o_rotation = rot, o_thickness = th,
        o_barcode_type = bt, o_line_thickness = lt, o_selected = sel, o_id = ident,
        o_bar_module = bm, o_bar_ratio = br, o_bar_height = bh, o_hri_above = hri\<rparr>"

text \<open>\<^verbatim>\<open>ZPLObject(obj_type, x, y, width, height, text)\<close>: the remaining fields take the
  dataclass defaults.\<close>

definition ZPLObject6 ::
  "string \<Rightarrow> string \<Rightarrow> int \<Rightarrow> int \<Rightarrow> int \<Rightarrow> int \<Rightarrow> string \<Rightarrow> ZPLObject" where
  "ZPLObject6 u ty x y w h txt =
     mk_ZPLObject u ty x y w h txt ''30'' ''A'' 0 2 ''128'' 3 False [] 3 2 100 False"

section \<open>The encoder: \<^verbatim>\<open>generate_zpl\<close>\<close>

text \<open>\<^verbatim>\<open>int(v * self.SCALE)\<close> with \<^verbatim>\<open>SCALE = 1.0\<close>: the value itself (the product is
  taken as exact).\<close>

definition scaled :: "int \<Rightarrow> int" where
  "scaled v = v"

definition nl :: string where
  "nl = [CHR 0x0A]"

text \<open>The condition of the inner loop of the de-duplication pass.\<close>

definition text_matches :: "ZPLObject \<Rightarrow> ZPLObject \<Rightarrow> bool" where
  "text_matches obj t =
     (obj_type t = ''text'' \<and> o_text t = o_text obj \<and>
      \<bar>o_x t - o_x obj\<bar> \<le> 2 \<and>
      \<bar>o_width t - o_width obj\<bar> \<le> 2 \<and>
      \<bar>o_y t - (o_y obj + o_height obj + 5)\<bar> \<le> 3)"

text \<open>The first pass: for each barcode the id of the first matching text object.\<close>

definition skip_text_ids :: "ZPLObject list \<Rightarrow> string set" where
  "skip_text_ids objs =
     fold (\<lambda>obj skip.
             if obj_type obj = ''barcode''
             then (case find (text_matches obj) objs of
                     Some t \<Rightarrow> insert (o_id t) skip
                   | None \<Rightarrow> skip)
             else skip)
          objs {}"

definition barcode_command :: "ZPLObject \<Rightarrow> string" where
  "barcode_command obj =
     (let height = str_int (scaled (o_height obj));
          hri_pos = (if o_hri_above obj then ''Y'' else ''N'')
      in if o_barcode_type obj = ''128'' then ''^BCN,'' @ height @ '',Y,'' @ hri_pos @ '',Y'' @ nl
         else if o_barcode_type obj = ''39'' then ''^B3N,N,'' @ height @ '',Y,'' @ hri_pos @ '',Y'' @ nl
         else if o_barcode_type obj = ''93'' then ''^BAN,'' @ height @ '',Y,'' @ hri_pos @ '',Y'' @ nl
         else if o_barcode_type obj = ''I25'' then ''^B2N,N,'' @ height @ '',Y,'' @ hri_pos @ '',Y'' @ nl
         else if o_barcode_type obj \<in> {''EAN13'', ''EAN8''} then ''^BEN,'' @ height @ '',Y,'' @ hri_pos @ '',Y'' @ nl
         else if o_barcode_type obj \<in> {''UPCA'', ''UPCE''} then ''^BUN,'' @ height @ '',Y,'' @ hri_pos @ '',Y'' @ nl
         else [])"

definition field_origin :: "ZPLObject \<Rightarrow> string" where
  "field_origin obj = ''^FO'' @ str_int (scaled (o_x obj)) @ '','' @ str_int (scaled (o_y obj)) @ nl"

text \<open>\<^verbatim>\<open>obj.text.replace('.bmp', '').replace('.BMP', '')[:8].upper()\<close>.\<close>

definition image_name :: "string \<Rightarrow> string" where
  "image_name txt = upper (take 8 (remove_all ''.BMP'' (remove_all ''.bmp'' txt)))"

text \<open>One turn of the second loop: the text appended to \<open>zpl\<close> for \<open>obj\<close>.\<close>

definition encode_object :: "string set \<Rightarrow> ZPLObject \<Rightarrow> string" where
  "encode_object skip obj =
     (if obj_type obj = ''text'' \<and> o_id obj \<in> skip then []
      else if obj_type obj = ''barcode'' then
        field_origin obj @
        ''^BY'' @ str_int (o_bar_module obj) @ '','' @ str_int (o_bar_ratio obj) @ '','' @
          str_int (o_bar_height obj) @ nl @
        barcode_command obj @
        ''^FD'' @ o_text obj @ ''^FS'' @ nl
      else
        field_origin obj @
        (if obj_type obj = ''text'' then
           ''^A'' @ o_font_type obj @ '',N,'' @ o_font_size obj @ '','' @ o_font_size obj @ nl @
           (if o_rotation obj \<noteq> 0 then ''^FWR'' @ nl else []) @
           ''^FD'' @ o_text obj @ ''^FS'' @ nl
         else if obj_type obj = ''rectangle'' then
           ''^GB'' @ str_int (scaled (o_width obj)) @ '','' @ str_int (scaled (o_height obj)) @ '','' @
             str_int (o_thickness obj) @ ''^FS'' @ nl
         else if obj_type obj = ''line'' then
           (if o_width obj > o_height obj
            then ''^GB'' @ str_int (scaled (o_width obj)) @ '','' @
                   str_int (max 1 (o_line_thickness obj)) @ '',B^FS'' @ nl
            else ''^GB'' @ str_int (max 1 (o_line_thickness obj)) @ '','' @
                   str_int (scaled (o_height obj)) @ '',B^FS'' @ nl)
         else if obj_type obj = ''circle'' then
           ''^GC'' @ str_int (min (scaled (o_width obj)) (scaled (o_height obj))) @ '','' @
             str_int (o_thickness obj) @ ''^FS'' @ nl
         else if obj_type obj = ''image'' then
           (if o_text obj \<noteq> [] then ''^XG'' @ image_name (o_text obj) @ '',1,1^FS'' @ nl else [])
         else []))"

definition generate_zpl :: "LabelSettings \<Rightarrow> ZPLObject list \<Rightarrow> string" where
  "generate_zpl settings objs =
     (let zpl = ''^XA'' @ nl;
          zpl = (if orientation settings = ''Landscape'' then zpl @ ''^POI'' @ nl else zpl);
          skip = skip_text_ids objs;
          zpl = fold (\<lambda>obj z. z @ encode_object skip obj) objs zpl
      in zpl @ ''^XZ'' @ nl)"

section \<open>The decoder: \<^verbatim>\<open>ZPLParser.parse_zpl_file\<close>\<close>

text \<open>The local variables of the scan. A new object takes its id from \<open>uuids k\<close>, the
  UUID string drawn for the \<open>k\<close>-th object the scan creates.\<close>

record pstate =
  p_objects :: "ZPLObject list"
  current_x :: int
  current_y :: int
  current_font_type :: string
  current_font_size :: string

definition pstate_init :: pstate where
  "pstate_init =
     \<lparr>p_objects = [], current_x = 0, current_y = 0,
      current_font_type = ''A'', current_font_size = ''30''\<rparr>"

definition ebind :: "error + 'a \<Rightarrow> ('a \<Rightarrow> error + 'b) \<Rightarrow> error + 'b" where
  "ebind r f = (case r of Inl e \<Rightarrow> Inl e | Inr v \<Rightarrow> f v)"

definition parse_line :: "(nat \<Rightarrow> string) \<Rightarrow> pstate \<Rightarrow> string \<Rightarrow> error + pstate" where
  "parse_line uuids p raw =
     (let line = strip raw; u = uuids (length (p_objects p)) in
      if line = [] then Inr p
      else if startswith line ''^FO'' then
        (let coords = findall_digits line in
         if length coords \<ge> 2 then
           ebind (ebind (py_index coords 0) py_int) (\<lambda>x.
           ebind (ebind (py_index coords 1) py_int) (\<lambda>y.
           Inr (p\<lparr>current_x := x, current_y := y\<rparr>)))
         else Inr p)
      else if startswith line ''^A'' then
        (case font_match line of
           Some (g1, g2) \<Rightarrow> Inr (p\<lparr>current_font_type := g1, current_font_size := g2\<rparr>)
         | None \<Rightarrow> Inr p)
      else if startswith line ''^FD'' then
        (let txt = remove_all ''^FS'' (drop 3 line);
             obj = ZPLObject6 u ''text'' (current_x p) (current_y p) 100 30 txt;
             obj = obj\<lparr>o_font_type := current_font_type p\<rparr>;
             obj = obj\<lparr>o_font_size := current_font_size p\<rparr>
         in Inr (p\<lparr>p_objects := p_objects p @ [obj]\<rparr>))
      else if startswith line ''^GB'' then
        (let params = findall_digits line in
         if length params \<ge> 2 then
           ebind (ebind (py_index params 0) py_int) (\<lambda>width.
           ebind (ebind (py_index params 1) py_int) (\<lambda>height.
           ebind (if length params > 2 then ebind (py_index params 2) py_int else Inr 2) (\<lambda>thickness.
           let obj = ZPLObject6 u ''rectangle'' (current_x p) (current_y p) width height [];
               obj = obj\<lparr>o_thickness := thickness\<rparr>
           in Inr (p\<lparr>p_objects := p_objects p @ [obj]\<rparr>))))
         else Inr p)
      else if startswith line ''^GC'' then
        (let params = findall_digits line in
         if length params \<ge> 1 then
           ebind (ebind (py_index params 0) py_int) (\<lambda>diameter.
           ebind (if length params > 1 then ebind (py_index params 1) py_int else Inr 2) (\<lambda>thickness.
           let obj = ZPLObject6 u ''circle'' (current_x p) (current_y p) diameter diameter [];
               obj = obj\<lparr>o_thickness := thickness\<rparr>
           in Inr (p\<lparr>p_objects := p_objects p @ [obj]\<rparr>)))
         else Inr p)
      else if startswith line ''^B'' then
        (case barcode_match line of
           Some g1 \<Rightarrow>
             (let obj = ZPLObject6 u ''barcode'' (current_x p) (current_y p) 120 60 [];
                  obj = obj\<lparr>o_barcode_type := g1\<rparr>
              in Inr (p\<lparr>p_objects := p_objects p @ [obj]\<rparr>))
         | None \<Rightarrow> Inr p)
      else Inr p)"

fun parse_lines :: "(nat \<Rightarrow> string) \<Rightarrow> pstate \<Rightarrow> string list \<Rightarrow> error + pstate" where
  "parse_lines uuids p [] = Inr p"
| "parse_lines uuids p (l # ls) = ebind (parse_line uuids p l) (\<lambda>p'. parse_lines uuids p' ls)"

definition parse_zpl_file :: "(nat \<Rightarrow> string) \<Rightarrow> string \<Rightarrow> error + ZPLObject list" where
  "parse_zpl_file uuids content =
     ebind (parse_lines uuids pstate_init (split_lines content)) (\<lambda>p. Inr (p_objects p))"

section \<open>The editor state\<close>

text \<open>
  \<^verbatim>\<open>ZPLEditor\<close> holds references to mutable objects: the same \<^verbatim>\<open>ZPLObject\<close> is
  reachable from \<^verbatim>\<open>self.objects\<close>, from \<^verbatim>\<open>self.selected_object\<close> and from
  \<^verbatim>\<open>self.drag_data["item"]\<close>. The model keeps the objects in a store indexed by
  references; \<open>next_ref\<close> is the first reference not handed out yet. History snapshots and the
  clipboard are deep copies that nothing else refers to, so they are kept as values, and
  \<^verbatim>\<open>copy.deepcopy\<close> of a list puts its objects at new references.

  Of the host window only what reaches the core state is modelled: dialog answers, file
  contents and UUID strings are inputs of the callbacks, and \<^verbatim>\<open>_draw_object\<close> enters
  through the size it writes back into a text object. That size is given by \<open>m\<close>, which maps
  the text, font type and font size of a text object to the extent the canvas reports for
  it (\<open>None\<close> when the canvas reports no bounding box); the canvas calls themselves are
  taken to succeed.
\<close>

type_synonym metrics = "string \<Rightarrow> string \<Rightarrow> string \<Rightarrow> (int \<times> int) option"

record editor =
  label_settings :: LabelSettings
  store :: "nat \<Rightarrow> ZPLObject"
  next_ref :: nat
  objects :: "nat list"
  selected_object :: "nat option"
  drag_item :: "nat option"
  clipboard_object :: "ZPLObject option"
  undo_stack :: "ZPLObject list list"
  redo_stack :: "ZPLObject list list"

definition max_undo_steps :: nat where
  "max_undo_steps = 50"

text \<open>The object list as values: what \<^verbatim>\<open>copy.deepcopy(self.objects)\<close> copies.\<close>

definition scene :: "editor \<Rightarrow> ZPLObject list" where
  "scene s = map (store s) (objects s)"

definition alloc :: "ZPLObject \<Rightarrow> editor \<Rightarrow> nat \<times> editor" where
  "alloc obj s = (next_ref s, s\<lparr>store := (store s)(next_ref s := obj), next_ref := Suc (next_ref s)\<rparr>)"

fun alloc_list :: "ZPLObject list \<Rightarrow> editor \<Rightarrow> nat list \<times> editor" where
  "alloc_list [] s = ([], s)"
| "alloc_list (obj # objs) s =
     (let (r, s1) = alloc obj s; (rs, s2) = alloc_list objs s1 in (r # rs, s2))"

text \<open>\<^verbatim>\<open>self.objects = copy.deepcopy(state)\<close>.\<close>

definition set_objects_copy :: "ZPLObject list \<Rightarrow> editor \<Rightarrow> editor" where
  "set_objects_copy state s = (let (rs, s1) = alloc_list state s in s1\<lparr>objects := rs\<rparr>)"

text \<open>A loop \<^verbatim>\<open>for o in self.objects: o := f(o)\<close> over the referenced objects.\<close>

fun update_all :: "(ZPLObject \<Rightarrow> ZPLObject) \<Rightarrow> nat list \<Rightarrow> (nat \<Rightarrow> ZPLObject) \<Rightarrow> nat \<Rightarrow> ZPLObject" where
  "update_all f [] st = st"
| "update_all f (r # rs) st = update_all f rs (st(r := f (st r)))"

subsection \<open>Grid snapping\<close>

text \<open>\<^verbatim>\<open>round(x / g)\<close> for integers \<open>x\<close> and \<open>g \<noteq> 0\<close>: the quotient rounded to the nearest
  integer, a tie going to the even one (the division is taken as exact).\<close>

definition py_round_div :: "int \<Rightarrow> int \<Rightarrow> int" where
  "py_round_div x g =
     (let q = x div g; r = x mod g in
      if 2 * \<bar>r\<bar> < \<bar>g\<bar> then q
      else if 2 * \<bar>r\<bar> > \<bar>g\<bar> then q + 1
      else if even q then q else q + 1)"

definition snap_to_grid :: "LabelSettings \<Rightarrow> int \<Rightarrow> int \<Rightarrow> error + (int \<times> int)" where
  "snap_to_grid settings x y =
     (if \<not> snap_to_grid_on settings then Inr (x, y)
      else if grid_size settings = 0 then Inl ZeroDivisionError
      else Inr (py_round_div x (grid_size settings) * grid_size settings,
                py_round_div y (grid_size settings) * grid_size settings))"

subsection \<open>Drawing and selection\<close>

text \<open>What \<^verbatim>\<open>_draw_object\<close> changes: the width and height of a text object.\<close>

definition draw_object :: "metrics \<Rightarrow> ZPLObject \<Rightarrow> ZPLObject" where
  "draw_object m obj =
     (if obj_type obj = ''text'' then
        (case m (o_text obj) (o_font_type obj) (o_font_size obj) of
           Some (w, h) \<Rightarrow> obj\<lparr>o_width := w, o_height := h\<rparr>
         | None \<Rightarrow> obj)
      else obj)"

definition redraw_objects :: "metrics \<Rightarrow> editor \<Rightarrow> editor" where
  "redraw_objects m s = s\<lparr>store := update_all (draw_object m) (objects s) (store s)\<rparr>"

definition select_object :: "metrics \<Rightarrow> nat option \<Rightarrow> editor \<Rightarrow> editor" where
  "select_object m obj s =
     (let s1 = s\<lparr>store := update_all (\<lambda>ob. ob\<lparr>o_selected := False\<rparr>) (objects s) (store s)\<rparr>;
          s2 = s1\<lparr>selected_object := obj\<rparr>;
          s3 = (case obj of
                  Some r \<Rightarrow> s2\<lparr>store := (store s2)(r := (store s2 r)\<lparr>o_selected := True\<rparr>)\<rparr>
                | None \<Rightarrow> s2)
      in redraw_objects m s3)"

subsection \<open>History\<close>

definition save_state :: "editor \<Rightarrow> editor" where
  "save_state s =
     (let state = scene s;
          us = undo_stack s @ [state];
          us = (if length us > max_undo_steps then tl us else us)
      in s\<lparr>undo_stack := us, redo_stack := []\<rparr>)"

definition undo :: "metrics \<Rightarrow> editor \<Rightarrow> editor" where
  "undo m s =
     (if length (undo_stack s) > 1 then
        (let current_state = last (undo_stack s);
             s1 = s\<lparr>undo_stack := butlast (undo_stack s)\<rparr>;
             s2 = s1\<lparr>redo_stack := redo_stack s1 @ [current_state]\<rparr>;
             s3 = set_objects_copy (last (undo_stack s2)) s2;
             s4 = s3\<lparr>selected_object := None\<rparr>
         in redraw_objects m s4)
      else s)"

definition redo :: "metrics \<Rightarrow> editor \<Rightarrow> editor" where
  "redo m s =
     (if redo_stack s \<noteq> [] then
        (let state = last (redo_stack s);
             s1 = s\<lparr>redo_stack := butlast (redo_stack s)\<rparr>;
             s2 = s1\<lparr>undo_stack := undo_stack s1 @ [state]\<rparr>;
             s3 = set_objects_copy state s2;
             s4 = s3\<lparr>selected_object := None\<rparr>
         in redraw_objects m s4)
      else s)"

text \<open>\<^verbatim>\<open>ZPLEditor.__init__\<close>: the fields, then the initial snapshot. Unused store cells
  hold a placeholder that is never read.\<close>

definition editor_init :: editor where
  "editor_init =
     save_state
       \<lparr>label_settings = LabelSettings_default,
        store = (\<lambda>_. ZPLObject6 [] [] 0 0 0 0 []),
        next_ref = 0, objects = [], selected_object = None, drag_item = None,
        clipboard_object = None, undo_stack = [], redo_stack = []\<rparr>"

subsection \<open>Adding, deleting, clearing\<close>

text \<open>A row of the \<^verbatim>\<open>defaults\<close> dictionary of \<^verbatim>\<open>add_object\<close>: a key that is absent is
  \<open>None\<close>, and \<^verbatim>\<open>d.get(key, v)\<close> is \<open>get_or\<close>.\<close>

record obj_defaults =
  d_width :: "int option"
  d_height :: "int option"
  d_text :: "string option"
  d_font_size :: "string option"
  d_font_type :: "string option"
  d_barcode_type :: "string option"
  d_bar_module :: "int option"
  d_bar_ratio :: "int option"
  d_bar_height :: "int option"
  d_hri_above :: "bool option"

definition no_defaults :: obj_defaults where
  "no_defaults =
     \<lparr>d_width = None, d_height = None, d_text = None, d_font_size = None, d_font_type = None,
      d_barcode_type = None, d_bar_module = None, d_bar_ratio = None, d_bar_height = None,
      d_hri_above = None\<rparr>"

definition defaults :: "string \<Rightarrow> obj_defaults" where
  "defaults ty =
     (if ty = ''text'' then
        no_defaults\<lparr>d_width := Some 100, d_height := Some 30, d_text := Some ''Esempio'',
                    d_font_size := Some ''30'', d_font_type := Some ''A''\<rparr>
      else if ty = ''barcode'' then
        no_defaults\<lparr>d_width := Some 120, d_height := Some 60, d_text := Some ''123456789'',
                    d_bar_module := Some 3, d_bar_ratio := Some 2, d_bar_height := Some 100,
                    d_hri_above := Some False\<rparr>
      else if ty = ''rectangle'' then no_defaults\<lparr>d_width := Some 80, d_height := Some 40\<rparr>
      else if ty = ''line'' then no_defaults\<lparr>d_width := Some 100, d_height := Some 0\<rparr>
      else if ty = ''circle'' then no_defaults\<lparr>d_width := Some 40, d_height := Some 40\<rparr>
      else if ty = ''image'' then
        no_defaults\<lparr>d_width := Some 60, d_height := Some 60, d_text := Some ''image.bmp''\<rparr>
      else no_defaults)"

definition get_or :: "'a option \<Rightarrow> 'a \<Rightarrow> 'a" where
  "get_or v dflt = (case v of Some a \<Rightarrow> a | None \<Rightarrow> dflt)"

text \<open>The constructor call of \<^verbatim>\<open>add_object\<close>.\<close>

definition default_object :: "string \<Rightarrow> string \<Rightarrow> int \<Rightarrow> int \<Rightarrow> ZPLObject" where
  "default_object u ty x y =
     (let d = defaults ty in
      mk_ZPLObject u ty x y
        (get_or (d_width d) 50) (get_or (d_height d) 20) (get_or (d_text d) [])
        (get_or (d_font_size d) ''30'') (get_or (d_font_type d) ''A'')
        0 2 (get_or (d_barcode_type d) ''128'') 3 False []
        (get_or (d_bar_module d) 3) (get_or (d_bar_ratio d) 2) (get_or (d_bar_height d) 100)
        (get_or (d_hri_above d) False))"

definition add_object :: "metrics \<Rightarrow> string \<Rightarrow> string \<Rightarrow> editor \<Rightarrow> error + editor" where
  "add_object m ty u s =
     ebind (snap_to_grid (label_settings s) 50 50) (\<lambda>(x, y).
       let (r, s1) = alloc (default_object u ty x y) s;
           s2 = s1\<lparr>objects := objects s1 @ [r]\<rparr>;
           s3 = select_object m (Some r) s2;
           s4 = redraw_objects m s3
       in Inr (save_state s4))"

text \<open>\<^verbatim>\<open>list.remove(v)\<close> and \<^verbatim>\<open>list.index(v)\<close> compare with \<^verbatim>\<open>==\<close>, which on a
  dataclass is equality of all fields; both raise \<^verbatim>\<open>ValueError\<close> when nothing is equal.\<close>

fun py_remove :: "(nat \<Rightarrow> ZPLObject) \<Rightarrow> ZPLObject \<Rightarrow> nat list \<Rightarrow> error + nat list" where
  "py_remove st v [] = Inl ValueError"
| "py_remove st v (r # rs) =
     (if st r = v then Inr rs else ebind (py_remove st v rs) (\<lambda>rs'. Inr (r # rs')))"

fun py_list_index :: "(nat \<Rightarrow> ZPLObject) \<Rightarrow> ZPLObject \<Rightarrow> nat list \<Rightarrow> error + nat" where
  "py_list_index st v [] = Inl ValueError"
| "py_list_index st v (r # rs) =
     (if st r = v then Inr 0 else ebind (py_list_index st v rs) (\<lambda>i. Inr (Suc i)))"

definition delete_selected :: "metrics \<Rightarrow> editor \<Rightarrow> error + editor" where
  "delete_selected m s =
     (case selected_object s of
        Some r \<Rightarrow>
          ebind (py_remove (store s) (store s r) (objects s)) (\<lambda>objs.
            let s1 = s\<lparr>objects := objs\<rparr>;
                s2 = s1\<lparr>selected_object := None\<rparr>;
                s3 = redraw_objects m s2
            in Inr (save_state s3))
      | None \<Rightarrow> Inr s)"

text \<open>\<open>confirmed\<close> is the answer of the yes/no dialog.\<close>

definition clear_all :: "metrics \<Rightarrow> bool \<Rightarrow> editor \<Rightarrow> editor" where
  "clear_all m confirmed s =
     (if confirmed then
        (let s1 = s\<lparr>objects := []\<rparr>;
             s2 = s1\<lparr>selected_object := None\<rparr>;
             s3 = redraw_objects m s2
         in save_state s3)
      else s)"

subsection \<open>Mouse gestures\<close>

text \<open>\<open>x\<close> and \<open>y\<close> are the pointer coordinates divided by the zoom factor.\<close>

definition hit :: "rat \<Rightarrow> rat \<Rightarrow> ZPLObject \<Rightarrow> bool" where
  "hit x y obj =
     (of_int (o_x obj) \<le> x \<and> x \<le> of_int (o_x obj + o_width obj) \<and>
      of_int (o_y obj) \<le> y \<and> y \<le> of_int (o_y obj + o_height obj))"

definition on_canvas_click :: "metrics \<Rightarrow> rat \<Rightarrow> rat \<Rightarrow> editor \<Rightarrow> editor" where
  "on_canvas_click m x y s =
     (case find (\<lambda>r. hit x y (store s r)) (rev (objects s)) of
        Some clicked \<Rightarrow> (select_object m (Some clicked) s)\<lparr>drag_item := Some clicked\<rparr>
      | None \<Rightarrow> select_object m None s)"

text \<open>\<open>dx\<close> and \<open>dy\<close> are \<^verbatim>\<open>int(dx)\<close> and \<^verbatim>\<open>int(dy)\<close> of the source.\<close>

definition on_canvas_drag :: "metrics \<Rightarrow> int \<Rightarrow> int \<Rightarrow> editor \<Rightarrow> error + editor" where
  "on_canvas_drag m dx dy s =
     (case drag_item s of
        Some r \<Rightarrow>
          ebind (snap_to_grid (label_settings s) (o_x (store s r) + dx) (o_y (store s r) + dy))
            (\<lambda>(new_x, new_y).
               let s1 = s\<lparr>store := (store s)(r := (store s r)\<lparr>o_x := new_x, o_y := new_y\<rparr>)\<rparr>
               in Inr (redraw_objects m s1))
      | None \<Rightarrow> Inr s)"

definition on_canvas_release :: "editor \<Rightarrow> editor" where
  "on_canvas_release s =
     (let s1 = (if drag_item s \<noteq> None then save_state s else s)
      in s1\<lparr>drag_item := None\<rparr>)"

subsection \<open>Copy, paste and layers\<close>

definition copy_object :: "editor \<Rightarrow> editor" where
  "copy_object s =
     (case selected_object s of
        Some r \<Rightarrow> s\<lparr>clipboard_object := Some ((store s r)\<lparr>o_selected := False\<rparr>)\<rparr>
      | None \<Rightarrow> s)"

definition paste_object :: "metrics \<Rightarrow> string \<Rightarrow> editor \<Rightarrow> editor" where
  "paste_object m u s =
     (case clipboard_object s of
        Some c \<Rightarrow>
          (let new_obj = c\<lparr>o_x := o_x c + 20\<rparr>;
               new_obj = new_obj\<lparr>o_y := o_y new_obj + 20\<rparr>;
               new_obj = new_obj\<lparr>o_id := []\<rparr>;
               new_obj = post_init u new_obj;
               (r, s1) = alloc new_obj s;
               s2 = s1\<lparr>objects := objects s1 @ [r]\<rparr>;
               s3 = select_object m (Some r) s2;
               s4 = redraw_objects m s3
           in save_state s4)
      | None \<Rightarrow> s)"

definition swap :: "nat \<Rightarrow> nat \<Rightarrow> 'a list \<Rightarrow> 'a list" where
  "swap i j xs = xs[i := xs ! j, j := xs ! i]"

definition bring_forward :: "metrics \<Rightarrow> editor \<Rightarrow> error + editor" where
  "bring_forward m s =
     (case selected_object s of
        Some r \<Rightarrow>
          ebind (py_list_index (store s) (store s r) (objects s)) (\<lambda>idx.
            if int idx < int (length (objects s)) - 1 then
              (let s1 = s\<lparr>objects := swap idx (idx + 1) (objects s)\<rparr>;
                   s2 = redraw_objects m s1
               in Inr (save_state s2))
            else Inr s)
      | None \<Rightarrow> Inr s)"

definition send_backward :: "metrics \<Rightarrow> editor \<Rightarrow> error + editor" where
  "send_backward m s =
     (case selected_object s of
        Some r \<Rightarrow>
          ebind (py_list_index (store s) (store s r) (objects s)) (\<lambda>idx.
            if idx > 0 then
              (let s1 = s\<lparr>objects := swap idx (idx - 1) (objects s)\<rparr>;
                   s2 = redraw_objects m s1
               in Inr (save_state s2))
            else Inr s)
      | None \<Rightarrow> Inr s)"

subsection \<open>Projects and imports\<close>

definition new_project :: "metrics \<Rightarrow> bool \<Rightarrow> editor \<Rightarrow> editor" where
  "new_project m confirmed s =
     (if confirmed then
        (let s1 = s\<lparr>objects := []\<rparr>;
             s2 = s1\<lparr>selected_object := None\<rparr>;
             s3 = s2\<lparr>undo_stack := []\<rparr>;
             s4 = s3\<lparr>redo_stack := []\<rparr>;
             s5 = s4\<lparr>label_settings := LabelSettings_default\<rparr>;
             s6 = redraw_objects m s5
         in save_state s6)
      else s)"

text \<open>What \<^verbatim>\<open>json.load\<close> returned, as far as \<^verbatim>\<open>import_project\<close> looks at it: the
  outcome of \<^verbatim>\<open>LabelSettings(**settings_dict)\<close> when the key is present, and for the
  \<^verbatim>\<open>"objects"\<close> key the outcome of each \<^verbatim>\<open>ZPLObject(**obj_dict)\<close> before
  \<^verbatim>\<open>__post_init__\<close> (\<open>Inl\<close> where the call or the iteration raises).\<close>

record project_data =
  pd_label_settings :: "(error + LabelSettings) option"
  pd_objects :: "(error + ZPLObject) list option"

text \<open>The loading loop. The flag of the result tells whether the loop ran to its end; an
  exception leaves what was loaded before it.\<close>

fun load_objects :: "(nat \<Rightarrow> string) \<Rightarrow> nat \<Rightarrow> (error + ZPLObject) list \<Rightarrow> editor \<Rightarrow> bool \<times> editor" where
  "load_objects uuids k [] s = (True, s)"
| "load_objects uuids k (Inl e # rest) s = (False, s)"
| "load_objects uuids k (Inr obj # rest) s =
     (let (r, s1) = alloc (post_init (uuids k) obj) s
      in load_objects uuids (Suc k) rest (s1\<lparr>objects := objects s1 @ [r]\<rparr>))"

text \<open>\<open>filename\<close> is the answer of the file dialog and \<open>file\<close> the outcome of opening and
  parsing it. The \<^verbatim>\<open>except\<close> clause only shows a message, so an exception returns the
  state reached when it was raised.\<close>

definition import_project ::
  "metrics \<Rightarrow> string \<Rightarrow> (error + project_data) \<Rightarrow> (nat \<Rightarrow> string) \<Rightarrow> editor \<Rightarrow> editor" where
  "import_project m filename file uuids s =
     (if filename = [] then s
      else case file of
        Inl e \<Rightarrow> s
      | Inr pd \<Rightarrow>
          (case pd_label_settings pd of
             Some (Inl e) \<Rightarrow> s
           | loaded \<Rightarrow>
               (let s1 = (case loaded of Some (Inr ls) \<Rightarrow> s\<lparr>label_settings := ls\<rparr> | _ \<Rightarrow> s);
                    s2 = s1\<lparr>objects := []\<rparr>;
                    (finished, s3) = (case pd_objects pd of
                                        Some entries \<Rightarrow> load_objects uuids 0 entries s2
                                      | None \<Rightarrow> (True, s2))
                in if finished then
                     (let s4 = s3\<lparr>selected_object := None\<rparr>;
                          s5 = redraw_objects m s4
                      in save_state s5)
                   else s3)))"

text \<open>\<open>content\<close> is the outcome of reading the file and \<open>answer\<close> the answer of the
  replace/append/cancel dialog, asked only when the scene is not empty.\<close>

definition import_zpl_file ::
  "metrics \<Rightarrow> string \<Rightarrow> (error + string) \<Rightarrow> (nat \<Rightarrow> string) \<Rightarrow> bool option \<Rightarrow> editor \<Rightarrow> editor" where
  "import_zpl_file m filename content uuids answer s =
     (if filename = [] then s
      else case ebind content (parse_zpl_file uuids) of
        Inl e \<Rightarrow> s
      | Inr parsed_objects \<Rightarrow>
          if parsed_objects \<noteq> [] then
            (if objects s \<noteq> [] \<and> answer = None then s
             else
               (let s1 = (if objects s \<noteq> [] \<and> answer = Some True then s\<lparr>objects := []\<rparr> else s);
                    (rs, s2) = alloc_list parsed_objects s1;
                    s3 = s2\<lparr>objects := objects s2 @ rs\<rparr>;
                    s4 = s3\<lparr>selected_object := None\<rparr>;
                    s5 = redraw_objects m s4
                in save_state s5))
          else s)"

subsection \<open>The callbacks as events\<close>

text \<open>The main loop reports an exception that leaves a callback and goes on; each callback
  above raises only before it has changed anything, so the state is then the one before.\<close>

definition run_callback :: "(editor \<Rightarrow> error + editor) \<Rightarrow> editor \<Rightarrow> editor" where
  "run_callback f s = (case f s of Inl e \<Rightarrow> s | Inr s' \<Rightarrow> s')"

datatype event =
    AddObject string string
  | DeleteSelected
  | ClearAll bool
  | CanvasClick rat rat
  | CanvasDrag int int
  | CanvasRelease
  | CopyObject
  | PasteObject string
  | BringForward
  | SendBackward
  | Undo
  | Redo
  | NewProject bool
  | ImportProject string "error + project_data" "nat \<Rightarrow> string"
  | ImportZpl string "error + string" "nat \<Rightarrow> string" "bool option"

fun step :: "metrics \<Rightarrow> editor \<Rightarrow> event \<Rightarrow> editor" where
  "step m s (AddObject ty u) = run_callback (add_object m ty u) s"
| "step m s DeleteSelected = run_callback (delete_selected m) s"
| "step m s (ClearAll confirmed) = clear_all m confirmed s"
| "step m s (CanvasClick x y) = on_canvas_click m x y s"
| "step m s (CanvasDrag dx dy) = run_callback (on_canvas_drag m dx dy) s"
| "step m s CanvasRelease = on_canvas_release s"
| "step m s CopyObject = copy_object s"
| "step m s (PasteObject u) = paste_object m u s"
| "step m s BringForward = run_callback (bring_forward m) s"
| "step m s SendBackward = run_callback (send_backward m) s"
| "step m s Undo = undo m s"
| "step m s Redo = redo m s"
| "step m s (NewProject confirmed) = new_project m confirmed s"
| "step m s (ImportProject filename file uuids) = import_project m filename file uuids s"
| "step m s (ImportZpl filename content uuids answer) =
     import_zpl_file m filename content uuids answer s"

text \<open>A session: each event comes with the text metrics in force when it is handled.\<close>

definition run :: "editor \<Rightarrow> (metrics \<times> event) list \<Rightarrow> editor" where
  "run s evs = foldl (\<lambda>s' (m, e). step m s' e) s evs"

section \<open>Inputs and readings of the specification\<close>

text \<open>The scene of the suppression example, built as \<^verbatim>\<open>add_object\<close> builds a text and
  a barcode object (the defaults of each type), with the text, the positions and the
  barcode height of the example.\<close>

definition claim_text :: ZPLObject where
  "claim_text =
     (default_object ''1b9d6bcd-bbfd-4b2d-9b5d-ab8dfbbd4bed'' ''text'' 10 80)\<lparr>o_text := ''123456789''\<rparr>"

definition claim_barcode :: ZPLObject where
  "claim_barcode =
     (default_object ''9c5b94b1-35ad-49bb-b118-8e8fc24abf80'' ''barcode'' 10 20)\<lparr>o_height := 55\<rparr>"

text \<open>The same two objects with the dataclass defaults for every field the example does
  not give (both widths are then 0).\<close>

definition dataclass_text :: ZPLObject where
  "dataclass_text = ZPLObject6 ''1b9d6bcd-bbfd-4b2d-9b5d-ab8dfbbd4bed'' ''text'' 10 80 0 0 ''123456789''"

definition dataclass_barcode :: ZPLObject where
  "dataclass_barcode = ZPLObject6 ''9c5b94b1-35ad-49bb-b118-8e8fc24abf80'' ''barcode'' 10 20 0 55 ''123456789''"

text \<open>The image name as the specification words it: the file extension (what follows the
  last dot, with the dot) stripped, upper case, at most eight characters.\<close>

definition strip_extension :: "string \<Rightarrow> string" where
  "strip_extension s =
     (if CHR ''.'' \<in> set s then rev (tl (dropWhile (\<lambda>c. c \<noteq> CHR ''.'') (rev s))) else s)"

definition spec_image_name :: "string \<Rightarrow> string" where
  "spec_image_name s = take 8 (upper (strip_extension s))"




text \<open>The state a snapshot-committing operation leaves: the top of the undo stack is the
  current scene and the redo stack is empty.\<close>

definition committed :: "editor \<Rightarrow> bool" where
  "committed s = (undo_stack s \<noteq> [] \<and> last (undo_stack s) = scene s \<and> redo_stack s = [])"

text \<open>The text objects of the scene have the extent the canvas reports under \<open>m\<close>, as
  after any \<^verbatim>\<open>redraw_objects\<close> with these metrics.\<close>

definition redrawn :: "metrics \<Rightarrow> editor \<Rightarrow> bool" where
  "redrawn m s = (map (draw_object m) (scene s) = scene s)"

text \<open>A run of \<^verbatim>\<open>add_object\<close> calls, each with its object type and its UUID string.\<close>

definition add_all :: "metrics \<Rightarrow> (string \<times> string) list \<Rightarrow> editor \<Rightarrow> editor" where
  "add_all m ops s = foldl (\<lambda>s' (ty, u). run_callback (add_object m ty u) s') s ops"

text \<open>A canvas that reports no bounding box, used in examples.\<close>

definition no_metrics :: metrics where
  "no_metrics = (\<lambda>txt ftype fsize. None)"

text \<open>The whole history: the undo stack followed by the redo stack, newest undone state
  first. Undo and redo move the boundary between the two and keep the whole.\<close>

definition hist :: "editor \<Rightarrow> ZPLObject list list" where
  "hist s = undo_stack s @ rev (redo_stack s)"

text \<open>After an undo or a redo the scene is the top of the undo stack as the canvas redraws
  it.\<close>

definition synced :: "metrics \<Rightarrow> editor \<Rightarrow> bool" where
  "synced m s = (undo_stack s \<noteq> [] \<and> scene s = map (draw_object m) (last (undo_stack s)))"

text \<open>Whether the callback of an event, run in state \<open>s\<close>, reaches its call of
  \<^verbatim>\<open>save_state\<close>: the guards of the callbacks, read off their bodies.\<close>

fun commits :: "editor \<Rightarrow> event \<Rightarrow> bool" where
  "commits s (AddObject ty u) = (\<not> isl (snap_to_grid (label_settings s) 50 50))"
| "commits s DeleteSelected =
     (case selected_object s of
        Some r \<Rightarrow> \<not> isl (py_remove (store s) (store s r) (objects s))
      | None \<Rightarrow> False)"
| "commits s (ClearAll confirmed) = confirmed"
| "commits s CanvasRelease = (drag_item s \<noteq> None)"
| "commits s (PasteObject u) = (clipboard_object s \<noteq> None)"
| "commits s BringForward =
     (case selected_object s of
        Some r \<Rightarrow>
          (case py_list_index (store s) (store s r) (objects s) of
             Inr idx \<Rightarrow> int idx < int (length (objects s)) - 1
           | Inl e \<Rightarrow> False)
      | None \<Rightarrow> False)"
| "commits s SendBackward =
     (case selected_object s of
        Some r \<Rightarrow>
          (case py_list_index (store s) (store s r) (objects s) of
             Inr idx \<Rightarrow> idx > 0
           | Inl e \<Rightarrow> False)
      | None \<Rightarrow> False)"
| "commits s (NewProject confirmed) = confirmed"
| "commits s (ImportProject filename loaded uuids) =
     (filename \<noteq> [] \<and>
      (case loaded of
         Inr pd \<Rightarrow>
           (case pd_label_settings pd of Some (Inl e) \<Rightarrow> False | _ \<Rightarrow> True) \<and>
           (case pd_objects pd of
              Some entries \<Rightarrow> list_all (\<lambda>entry. \<not> isl entry) entries
            | None \<Rightarrow> True)
       | Inl e \<Rightarrow> False))"
| "commits s (ImportZpl filename content uuids answer) =
     (filename \<noteq> [] \<and>
      (case ebind content (parse_zpl_file uuids) of
         Inr parsed_objects \<Rightarrow> parsed_objects \<noteq> [] \<and> \<not> (objects s \<noteq> [] \<and> answer = None)
       | Inl e \<Rightarrow> False))"
| "commits s (CanvasClick x y) = False"
| "commits s (CanvasDrag dx dy) = False"
| "commits s CopyObject = False"
| "commits s Undo = False"
| "commits s Redo = False"

text \<open>Sixty adds of rectangles, with UUID strings that differ in their first eight
  characters.\<close>

definition sixty_adds :: "(string \<times> string) list" where
  "sixty_adds = map (\<lambda>i. (''rectangle'', str_nat (10000000 + i) @ ''-58cc-4372-a567-0e02b2c3d479'')) [0..<60]"

text \<open>A session that adds a text object and copies it, and its continuation by a paste for
  which the UUID drawn starts with the eight characters that are the id of the copied
  object.\<close>

definition add_and_copy :: "(metrics \<times> event) list" where
  "add_and_copy =
     [(no_metrics, AddObject ''text'' ''1b9d6bcd-bbfd-4b2d-9b5d-ab8dfbbd4bed''),
      (no_metrics, CopyObject)]"

definition collision_session :: "(metrics \<times> event) list" where
  "collision_session =
     add_and_copy @ [(no_metrics, PasteObject ''1b9d6bcd-e29b-41d4-a716-446655440000'')]"

text \<open>Every reference of the object list has been handed out by the store.\<close>

definition refs_allocated :: "editor \<Rightarrow> bool" where
  "refs_allocated s = (\<forall>r \<in> set (objects s). r < next_ref s)"

section \<open>Properties of the encoder\<close>

lemma fold_append_concat: "fold (\<lambda>obj z. z @ f obj) objs z = z @ concat (map f objs)"
  by (induction objs arbitrary: z) auto

lemma generate_zpl_structure:
  "generate_zpl settings objs =
     ''^XA'' @ nl @ (if orientation settings = ''Landscape'' then ''^POI'' @ nl else []) @
     concat (map (encode_object (skip_text_ids objs)) objs) @ ''^XZ'' @ nl"
  by (simp add: generate_zpl_def Let_def fold_append_concat)


lemmas obj_eval = default_object_def defaults_def no_defaults_def get_or_def mk_ZPLObject_def
  post_init_def ZPLObject6_def

lemma str_int_vals:
  "str_int 10 = ''10''" "str_int 80 = ''80''" "str_int 20 = ''20''" "str_int 55 = ''55''"
  "str_int 3 = ''3''" "str_int 2 = ''2''" "str_int 100 = ''100''" "str_int 50 = ''50''"
  by (simp_all add: str_int_def str_nat.simps digit_char_def)

lemma claim_text_fields:
  "obj_type claim_text = ''text''" "o_x claim_text = 10" "o_y claim_text = 80"
  "o_width claim_text = 100" "o_text claim_text = ''123456789''"
  "o_font_type claim_text = ''A''" "o_font_size claim_text = ''30''" "o_rotation claim_text = 0"
  "o_id claim_text = ''1b9d6bcd''"
  by (simp_all add: claim_text_def obj_eval)

lemma claim_barcode_fields:
  "obj_type claim_barcode = ''barcode''" "o_x claim_barcode = 10" "o_y claim_barcode = 20"
  "o_width claim_barcode = 120" "o_height claim_barcode = 55"
  "o_text claim_barcode = ''123456789''" "o_barcode_type claim_barcode = ''128''"
  "o_bar_module claim_barcode = 3" "o_bar_ratio claim_barcode = 2"
  "o_bar_height claim_barcode = 100" "o_hri_above claim_barcode = False"
  by (simp_all add: claim_barcode_def obj_eval)

lemma claim_scene_skip: "skip_text_ids [claim_text, claim_barcode] = {}"
  by (simp add: skip_text_ids_def text_matches_def claim_text_fields claim_barcode_fields)

lemma claim_text_block:
  "encode_object {} claim_text = ''^FO10,80\<newline>^AA,N,30,30\<newline>^FD123456789^FS\<newline>''"
  by (simp add: encode_object_def field_origin_def scaled_def nl_def claim_text_fields str_int_vals)

lemma claim_barcode_block:
  "encode_object {} claim_barcode =
     ''^FO10,20\<newline>^BY3,2,100\<newline>^BCN,55,Y,N,Y\<newline>^FD123456789^FS\<newline>''"
  by (simp add: encode_object_def field_origin_def barcode_command_def scaled_def nl_def
      claim_barcode_fields str_int_vals)

lemma claim_barcode_alone:
  "generate_zpl LabelSettings_default [claim_barcode] =
     ''^XA\<newline>^FO10,20\<newline>^BY3,2,100\<newline>^BCN,55,Y,N,Y\<newline>^FD123456789^FS\<newline>^XZ\<newline>''"
  by (simp add: generate_zpl_structure skip_text_ids_def text_matches_def claim_barcode_fields
      claim_barcode_block LabelSettings_default_def nl_def)

text \<open>
  C1 as stated: a text object and a barcode object with the fields of the example and the
  defaults of their types for the rest. Their widths are 100 and 120, the width test of the
  de-duplication pass fails, and the block of the text object is emitted.
\<close>

theorem suppression_default_fields_counterexample:
  "generate_zpl LabelSettings_default [claim_text, claim_barcode] =
     ''^XA\<newline>^FO10,80\<newline>^AA,N,30,30\<newline>^FD123456789^FS\<newline>^FO10,20\<newline>^BY3,2,100\<newline>^BCN,55,Y,N,Y\<newline>^FD123456789^FS\<newline>^XZ\<newline>'' \<and>
   generate_zpl LabelSettings_default [claim_text, claim_barcode] \<noteq>
     generate_zpl LabelSettings_default [claim_barcode]"
proof
  show full: "generate_zpl LabelSettings_default [claim_text, claim_barcode] =
     ''^XA\<newline>^FO10,80\<newline>^AA,N,30,30\<newline>^FD123456789^FS\<newline>^FO10,20\<newline>^BY3,2,100\<newline>^BCN,55,Y,N,Y\<newline>^FD123456789^FS\<newline>^XZ\<newline>''"
    by (simp add: generate_zpl_structure claim_scene_skip claim_text_block claim_barcode_block
        LabelSettings_default_def nl_def)
  show "generate_zpl LabelSettings_default [claim_text, claim_barcode] \<noteq>
     generate_zpl LabelSettings_default [claim_barcode]"
    unfolding full claim_barcode_alone by simp
qed

lemma encode_barcode_skip:
  "obj_type b = ''barcode'' \<Longrightarrow> encode_object skip b = encode_object {} b"
  by (simp add: encode_object_def)

text \<open>
  C1, amended. A scene of one text object and one barcode object with equal text, whose
  x and widths differ by at most 2 and whose text y differs from barcode y + height + 5 by
  at most 3, is encoded as the barcode alone: the block of the text object is omitted, in
  either order of the two objects.
\<close>

theorem barcode_text_suppression:
  assumes "obj_type t = ''text''" and "obj_type b = ''barcode''"
    and "o_text t = o_text b"
    and "\<bar>o_x t - o_x b\<bar> \<le> 2"
    and "\<bar>o_width t - o_width b\<bar> \<le> 2"
    and "\<bar>o_y t - (o_y b + o_height b + 5)\<bar> \<le> 3"
  shows "generate_zpl settings [t, b] = generate_zpl settings [b] \<and>
         generate_zpl settings [b, t] = generate_zpl settings [b]"
proof -
  have m: "text_matches b t" using assms by (simp add: text_matches_def)
  have nb: "\<not> text_matches b b" using assms by (simp add: text_matches_def)
  have s1: "skip_text_ids [t, b] = {o_id t}" using assms(1,2) m by (simp add: skip_text_ids_def)
  have s2: "skip_text_ids [b, t] = {o_id t}" using assms(1,2) m nb by (simp add: skip_text_ids_def)
  have e: "encode_object {o_id t} t = []" using assms(1) by (simp add: encode_object_def)
  have eb: "encode_object {o_id t} b = encode_object (skip_text_ids [b]) b"
    using assms(2) encode_barcode_skip by metis
  show ?thesis
    by (simp add: generate_zpl_structure s1 s2 e eb)
qed

theorem barcode_text_suppression_witness:
  "obj_type dataclass_text = ''text'' \<and> obj_type dataclass_barcode = ''barcode'' \<and>
   o_text dataclass_text = o_text dataclass_barcode \<and>
   \<bar>o_x dataclass_text - o_x dataclass_barcode\<bar> \<le> 2 \<and>
   \<bar>o_width dataclass_text - o_width dataclass_barcode\<bar> \<le> 2 \<and>
   \<bar>o_y dataclass_text - (o_y dataclass_barcode + o_height dataclass_barcode + 5)\<bar> \<le> 3 \<and>
   generate_zpl LabelSettings_default [dataclass_text, dataclass_barcode] =
     generate_zpl LabelSettings_default [dataclass_barcode] \<and>
   generate_zpl LabelSettings_default [dataclass_barcode, dataclass_text] =
     generate_zpl LabelSettings_default [dataclass_barcode]"
proof -
  have h1: "obj_type dataclass_text = ''text''" by (simp add: dataclass_text_def obj_eval)
  have h2: "obj_type dataclass_barcode = ''barcode''" by (simp add: dataclass_barcode_def obj_eval)
  have h3: "o_text dataclass_text = o_text dataclass_barcode"
    by (simp add: dataclass_text_def dataclass_barcode_def obj_eval)
  have h4: "\<bar>o_x dataclass_text - o_x dataclass_barcode\<bar> \<le> 2"
    by (simp add: dataclass_text_def dataclass_barcode_def obj_eval)
  have h5: "\<bar>o_width dataclass_text - o_width dataclass_barcode\<bar> \<le> 2"
    by (simp add: dataclass_text_def dataclass_barcode_def obj_eval)
  have h6: "\<bar>o_y dataclass_text - (o_y dataclass_barcode + o_height dataclass_barcode + 5)\<bar> \<le> 3"
    by (simp add: dataclass_text_def dataclass_barcode_def obj_eval)
  show ?thesis
    using h1 h2 h3 h4 h5 h6
      barcode_text_suppression [OF h1 h2 h3 h4 h5 h6, of LabelSettings_default]
    by blast
qed







text \<open>For a name made of a stem without a dot and the extension \<^verbatim>\<open>.bmp\<close> the operand is
  the one the specification describes.\<close>

lemma remove_acc_no_dot:
  "CHR ''.'' \<notin> set stem \<Longrightarrow> hd pat = CHR ''.'' \<Longrightarrow> pat \<noteq> [] \<Longrightarrow> remove_acc 0 pat (stem @ rest) = stem @ remove_acc 0 pat rest"
proof (induction stem)
  case Nil then show ?case by simp
next
  case (Cons c stem)
  then have "\<not> startswith (c # stem @ rest) pat"
    by (cases pat) (auto simp: startswith_def)
  with Cons show ?case by simp
qed

lemma image_name_bmp:
  assumes "CHR ''.'' \<notin> set stem"
  shows "image_name (stem @ ''.bmp'') = spec_image_name (stem @ ''.bmp'')"
proof -
  have a: "remove_all ''.bmp'' (stem @ ''.bmp'') = stem"
    using remove_acc_no_dot [OF assms, of "''.bmp''" "''.bmp''"]
    by (simp add: remove_all_def startswith_def)
  have b: "remove_all ''.BMP'' stem = stem"
    using remove_acc_no_dot [OF assms, of "''.BMP''" "[]"]
    by (simp add: remove_all_def)
  have c: "strip_extension (stem @ ''.bmp'') = stem"
    using assms by (simp add: strip_extension_def dropWhile_append3)
  show ?thesis
    by (simp add: image_name_def spec_image_name_def a b c upper_def take_map)
qed

section \<open>Properties of the decoder\<close>










section \<open>Encoding and decoding a rectangle\<close>

































section \<open>The store and the history\<close>

lemma update_all_apply:
  assumes "\<And>x. f (f x) = f x"
  shows "update_all f rs st r = (if r \<in> set rs then f (st r) else st r)"
proof (induction rs arbitrary: st)
  case Nil
  then show ?case by simp
next
  case (Cons a rs)
  show ?case by (simp add: Cons.IH assms)
qed

lemma draw_object_idem: "draw_object m (draw_object m obj) = draw_object m obj"
  by (auto simp: draw_object_def split: option.splits)

lemma draw_object_keeps:
  "o_id (draw_object m obj) = o_id obj" "o_x (draw_object m obj) = o_x obj"
  "o_y (draw_object m obj) = o_y obj" "o_selected (draw_object m obj) = o_selected obj"
  "obj_type (draw_object m obj) = obj_type obj"
  by (auto simp: draw_object_def split: option.splits)

lemma redraw_objects_fields:
  "objects (redraw_objects m s) = objects s" "next_ref (redraw_objects m s) = next_ref s"
  "undo_stack (redraw_objects m s) = undo_stack s" "redo_stack (redraw_objects m s) = redo_stack s"
  "selected_object (redraw_objects m s) = selected_object s"
  "drag_item (redraw_objects m s) = drag_item s"
  "clipboard_object (redraw_objects m s) = clipboard_object s"
  "label_settings (redraw_objects m s) = label_settings s"
  by (simp_all add: redraw_objects_def)

lemma scene_redraw_objects: "scene (redraw_objects m s) = map (draw_object m) (scene s)"
  by (simp add: scene_def redraw_objects_def update_all_apply draw_object_idem)

lemma alloc_list_frame:
  "alloc_list objs s = (rs, s') \<Longrightarrow>
     undo_stack s' = undo_stack s \<and> redo_stack s' = redo_stack s \<and> objects s' = objects s \<and>
     label_settings s' = label_settings s \<and> selected_object s' = selected_object s \<and>
     drag_item s' = drag_item s \<and> clipboard_object s' = clipboard_object s \<and>
     next_ref s' = next_ref s + length objs \<and>
     (\<forall>r \<in> set rs. next_ref s \<le> r \<and> r < next_ref s') \<and>
     (\<forall>r < next_ref s. store s' r = store s r) \<and>
     map (store s') rs = objs"
proof (induction objs arbitrary: s rs s')
  case Nil
  then show ?case by simp
next
  case (Cons obj objs)
  obtain rs1 s1 where r1: "alloc_list objs (snd (alloc obj s)) = (rs1, s1)"
    by (cases "alloc_list objs (snd (alloc obj s))")
  from Cons.prems r1 have rs: "rs = next_ref s # rs1" and s': "s' = s1"
    by (simp_all add: alloc_def Let_def)
  note ih = Cons.IH [OF r1]
  have st: "store s1 (next_ref s) = obj"
    using ih by (simp add: alloc_def)
  have keep: "\<forall>r < next_ref s. store s1 r = store s r"
    using ih by (simp add: alloc_def)
  have bounds: "\<forall>r \<in> set rs1. next_ref s \<le> r \<and> r < next_ref s1"
    using ih by (auto simp: alloc_def)
  have nxt: "next_ref s1 = next_ref s + length (obj # objs)"
    using ih by (simp add: alloc_def)
  have fr: "undo_stack s1 = undo_stack s \<and> redo_stack s1 = redo_stack s \<and>
     objects s1 = objects s \<and> label_settings s1 = label_settings s \<and>
     selected_object s1 = selected_object s \<and> drag_item s1 = drag_item s \<and>
     clipboard_object s1 = clipboard_object s"
    using ih by (simp add: alloc_def)
  have mp: "map (store s1) rs1 = objs" using ih by simp
  show ?case
    unfolding rs s' using fr nxt bounds keep st mp by simp
qed

lemma save_state_fields:
  "objects (save_state s) = objects s" "store (save_state s) = store s"
  "next_ref (save_state s) = next_ref s" "scene (save_state s) = scene s"
  "selected_object (save_state s) = selected_object s" "drag_item (save_state s) = drag_item s"
  "clipboard_object (save_state s) = clipboard_object s"
  "label_settings (save_state s) = label_settings s"
  "redo_stack (save_state s) = []"
  by (simp_all add: save_state_def Let_def scene_def)

lemma save_state_undo_stack:
  "undo_stack (save_state s) =
     (if length (undo_stack s) \<ge> max_undo_steps then tl (undo_stack s @ [scene s])
      else undo_stack s @ [scene s])"
  by (auto simp: save_state_def Let_def)

lemma save_state_nonempty: "undo_stack (save_state s) \<noteq> []"
  by (cases "undo_stack s") (simp_all add: save_state_undo_stack max_undo_steps_def)

lemma save_state_last: "last (undo_stack (save_state s)) = scene s"
  by (cases "undo_stack s") (simp_all add: save_state_undo_stack max_undo_steps_def)

lemma select_object_fields:
  "objects (select_object m obj s) = objects s" "next_ref (select_object m obj s) = next_ref s"
  "undo_stack (select_object m obj s) = undo_stack s"
  "redo_stack (select_object m obj s) = redo_stack s"
  "selected_object (select_object m obj s) = obj"
  "drag_item (select_object m obj s) = drag_item s"
  "clipboard_object (select_object m obj s) = clipboard_object s"
  "label_settings (select_object m obj s) = label_settings s"
  by (simp_all add: select_object_def Let_def redraw_objects_fields split: option.splits)

lemma set_objects_copy_fields:
  "undo_stack (set_objects_copy st s) = undo_stack s"
  "redo_stack (set_objects_copy st s) = redo_stack s"
  "selected_object (set_objects_copy st s) = selected_object s"
  "drag_item (set_objects_copy st s) = drag_item s"
  "clipboard_object (set_objects_copy st s) = clipboard_object s"
  "label_settings (set_objects_copy st s) = label_settings s"
  "next_ref (set_objects_copy st s) = next_ref s + length st"
  "scene (set_objects_copy st s) = st"
  "\<forall>r \<in> set (objects (set_objects_copy st s)). r < next_ref (set_objects_copy st s)"
proof -
  obtain rs s1 where a: "alloc_list st s = (rs, s1)" by (cases "alloc_list st s")
  note f = alloc_list_frame [OF a]
  have e: "set_objects_copy st s = s1\<lparr>objects := rs\<rparr>"
    by (simp add: set_objects_copy_def a)
  show "undo_stack (set_objects_copy st s) = undo_stack s"
    "redo_stack (set_objects_copy st s) = redo_stack s"
    "selected_object (set_objects_copy st s) = selected_object s"
    "drag_item (set_objects_copy st s) = drag_item s"
    "clipboard_object (set_objects_copy st s) = clipboard_object s"
    "label_settings (set_objects_copy st s) = label_settings s"
    "next_ref (set_objects_copy st s) = next_ref s + length st"
    "scene (set_objects_copy st s) = st"
    "\<forall>r \<in> set (objects (set_objects_copy st s)). r < next_ref (set_objects_copy st s)"
    using f by (auto simp: e scene_def)
qed

lemma undo_stack_undo:
  "undo_stack (undo m s) = (if length (undo_stack s) > 1 then butlast (undo_stack s) else undo_stack s)"
  by (simp add: undo_def Let_def redraw_objects_fields set_objects_copy_fields)

lemma redo_stack_undo:
  "redo_stack (undo m s) =
     (if length (undo_stack s) > 1 then redo_stack s @ [last (undo_stack s)] else redo_stack s)"
  by (simp add: undo_def Let_def redraw_objects_fields set_objects_copy_fields)

lemma scene_undo:
  "length (undo_stack s) > 1 \<Longrightarrow>
   scene (undo m s) = map (draw_object m) (last (butlast (undo_stack s)))"
  by (simp add: undo_def Let_def scene_redraw_objects scene_def [of "_\<lparr>selected_object := None\<rparr>"]
      set_objects_copy_fields [unfolded scene_def])

lemma undo_stack_redo:
  "undo_stack (redo m s) =
     (if redo_stack s \<noteq> [] then undo_stack s @ [last (redo_stack s)] else undo_stack s)"
  by (simp add: redo_def Let_def redraw_objects_fields set_objects_copy_fields)

lemma redo_stack_redo:
  "redo_stack (redo m s) = (if redo_stack s \<noteq> [] then butlast (redo_stack s) else redo_stack s)"
  by (simp add: redo_def Let_def redraw_objects_fields set_objects_copy_fields)

lemma scene_redo:
  "redo_stack s \<noteq> [] \<Longrightarrow> scene (redo m s) = map (draw_object m) (last (redo_stack s))"
  by (simp add: redo_def Let_def scene_redraw_objects scene_def [of "_\<lparr>selected_object := None\<rparr>"]
      set_objects_copy_fields [unfolded scene_def])

subsection \<open>The undo stack is never empty\<close>

lemma load_objects_undo_stack:
  "undo_stack (snd (load_objects uuids k entries s)) = undo_stack s"
  by (induction uuids k entries s rule: load_objects.induct)
     (simp_all add: alloc_def Let_def split: prod.splits)

lemma add_object_nonempty:
  "undo_stack s \<noteq> [] \<Longrightarrow> undo_stack (run_callback (add_object m ty u) s) \<noteq> []"
  by (auto simp: run_callback_def add_object_def ebind_def Let_def save_state_nonempty
      split: sum.splits prod.splits)

lemma delete_selected_nonempty:
  "undo_stack s \<noteq> [] \<Longrightarrow> undo_stack (run_callback (delete_selected m) s) \<noteq> []"
  by (auto simp: run_callback_def delete_selected_def ebind_def Let_def save_state_nonempty
      split: sum.splits option.splits)

lemma clear_all_nonempty:
  "undo_stack s \<noteq> [] \<Longrightarrow> undo_stack (clear_all m confirmed s) \<noteq> []"
  by (simp add: clear_all_def Let_def save_state_nonempty)

lemma on_canvas_click_nonempty:
  "undo_stack s \<noteq> [] \<Longrightarrow> undo_stack (on_canvas_click m x y s) \<noteq> []"
  by (simp add: on_canvas_click_def select_object_fields split: option.splits)

lemma on_canvas_drag_nonempty:
  "undo_stack s \<noteq> [] \<Longrightarrow> undo_stack (run_callback (on_canvas_drag m dx dy) s) \<noteq> []"
  by (auto simp: run_callback_def on_canvas_drag_def ebind_def Let_def redraw_objects_fields
      split: sum.splits option.splits prod.splits)

lemma on_canvas_release_nonempty:
  "undo_stack s \<noteq> [] \<Longrightarrow> undo_stack (on_canvas_release s) \<noteq> []"
  by (simp add: on_canvas_release_def Let_def save_state_nonempty)

lemma copy_object_nonempty:
  "undo_stack s \<noteq> [] \<Longrightarrow> undo_stack (copy_object s) \<noteq> []"
  by (simp add: copy_object_def split: option.splits)

lemma paste_object_nonempty:
  "undo_stack s \<noteq> [] \<Longrightarrow> undo_stack (paste_object m u s) \<noteq> []"
  by (simp add: paste_object_def Let_def save_state_nonempty split: option.splits prod.splits)

lemma bring_forward_nonempty:
  "undo_stack s \<noteq> [] \<Longrightarrow> undo_stack (run_callback (bring_forward m) s) \<noteq> []"
  by (auto simp: run_callback_def bring_forward_def ebind_def Let_def save_state_nonempty
      split: sum.splits option.splits if_splits)

lemma send_backward_nonempty:
  "undo_stack s \<noteq> [] \<Longrightarrow> undo_stack (run_callback (send_backward m) s) \<noteq> []"
  by (auto simp: run_callback_def send_backward_def ebind_def Let_def save_state_nonempty
      split: sum.splits option.splits if_splits)

lemma undo_nonempty: "undo_stack s \<noteq> [] \<Longrightarrow> undo_stack (undo m s) \<noteq> []"
  by (cases "undo_stack s" rule: rev_cases) (auto simp: undo_stack_undo)

lemma redo_nonempty: "undo_stack s \<noteq> [] \<Longrightarrow> undo_stack (redo m s) \<noteq> []"
  by (simp add: undo_stack_redo)

lemma new_project_nonempty:
  "undo_stack s \<noteq> [] \<Longrightarrow> undo_stack (new_project m confirmed s) \<noteq> []"
  by (simp add: new_project_def Let_def save_state_nonempty)

lemma import_project_nonempty:
  assumes a: "undo_stack s \<noteq> []"
  shows "undo_stack (import_project m filename file uuids s) \<noteq> []"
proof (cases "filename = []")
  case True
  then show ?thesis using a by (simp add: import_project_def)
next
  case False
  show ?thesis
  proof (cases "file")
    case (Inl e)
    with False a show ?thesis by (simp add: import_project_def)
  next
    case (Inr pd)
    define s1 where "s1 = (case pd_label_settings pd of
        Some (Inr ls) \<Rightarrow> s\<lparr>label_settings := ls\<rparr> | _ \<Rightarrow> s)"
    define res where "res = (case pd_objects pd of
        Some entries \<Rightarrow> load_objects uuids 0 entries (s1\<lparr>objects := []\<rparr>)
      | None \<Rightarrow> (True, s1\<lparr>objects := []\<rparr>))"
    have u1: "undo_stack s1 = undo_stack s"
      by (simp add: s1_def split: option.splits sum.splits)
    have u3: "undo_stack (snd res) = undo_stack s"
      by (simp add: res_def load_objects_undo_stack u1 split: option.splits)
    have "import_project m filename file uuids s = s \<or>
        import_project m filename file uuids s =
          (if fst res then save_state (redraw_objects m ((snd res)\<lparr>selected_object := None\<rparr>))
           else snd res)"
      using False Inr
      by (simp add: import_project_def Let_def s1_def res_def
          split: option.splits sum.splits prod.splits)
    then show ?thesis
      using a u3 by (auto simp: save_state_nonempty split: if_splits)
  qed
qed


lemma import_zpl_file_nonempty:
  assumes a: "undo_stack s \<noteq> []"
  shows "undo_stack (import_zpl_file m filename content uuids answer s) \<noteq> []"
proof -
  have "import_zpl_file m filename content uuids answer s = s \<or>
      (\<exists>s'. import_zpl_file m filename content uuids answer s = save_state s')"
    by (auto simp: import_zpl_file_def Let_def split: sum.splits prod.splits)
  then show ?thesis
    using a by (auto simp: save_state_nonempty)
qed

lemma step_nonempty: "undo_stack s \<noteq> [] \<Longrightarrow> undo_stack (step m s e) \<noteq> []"
proof (cases e)
  case (AddObject ty u) then show "undo_stack s \<noteq> [] \<Longrightarrow> ?thesis" by (simp add: add_object_nonempty)
next
  case DeleteSelected then show "undo_stack s \<noteq> [] \<Longrightarrow> ?thesis" by (simp add: delete_selected_nonempty)
next
  case (ClearAll c) then show "undo_stack s \<noteq> [] \<Longrightarrow> ?thesis" by (simp add: clear_all_nonempty)
next
  case (CanvasClick x y) then show "undo_stack s \<noteq> [] \<Longrightarrow> ?thesis" by (simp add: on_canvas_click_nonempty)
next
  case (CanvasDrag dx dy) then show "undo_stack s \<noteq> [] \<Longrightarrow> ?thesis" by (simp add: on_canvas_drag_nonempty)
next
  case CanvasRelease then show "undo_stack s \<noteq> [] \<Longrightarrow> ?thesis" by (simp add: on_canvas_release_nonempty)
next
  case CopyObject then show "undo_stack s \<noteq> [] \<Longrightarrow> ?thesis" by (simp add: copy_object_nonempty)
next
  case (PasteObject u) then show "undo_stack s \<noteq> [] \<Longrightarrow> ?thesis" by (simp add: paste_object_nonempty)
next
  case BringForward then show "undo_stack s \<noteq> [] \<Longrightarrow> ?thesis" by (simp add: bring_forward_nonempty)
next
  case SendBackward then show "undo_stack s \<noteq> [] \<Longrightarrow> ?thesis" by (simp add: send_backward_nonempty)
next
  case Undo then show "undo_stack s \<noteq> [] \<Longrightarrow> ?thesis" by (simp add: undo_nonempty)
next
  case Redo then show "undo_stack s \<noteq> [] \<Longrightarrow> ?thesis" by (simp add: redo_nonempty)
next
  case (NewProject c) then show "undo_stack s \<noteq> [] \<Longrightarrow> ?thesis" by (simp add: new_project_nonempty)
next
  case (ImportProject f l u) then show "undo_stack s \<noteq> [] \<Longrightarrow> ?thesis" by (simp add: import_project_nonempty)
next
  case (ImportZpl f c u a) then show "undo_stack s \<noteq> [] \<Longrightarrow> ?thesis" by (simp add: import_zpl_file_nonempty)
qed

lemma run_nonempty: "undo_stack s \<noteq> [] \<Longrightarrow> undo_stack (run s evs) \<noteq> []"
proof (induction evs arbitrary: s)
  case Nil
  then show ?case by (simp add: run_def)
next
  case (Cons ev evs)
  obtain m e where ev: "ev = (m, e)" by (cases ev)
  have "undo_stack (step m s e) \<noteq> []" using Cons.prems by (rule step_nonempty)
  from Cons.IH [OF this] show ?case by (simp add: run_def ev)
qed

lemma editor_init_undo_stack: "undo_stack editor_init = [[]]"
  by (simp add: editor_init_def save_state_def Let_def scene_def max_undo_steps_def)

lemma undo_iter_nonempty: "undo_stack s \<noteq> [] \<Longrightarrow> undo_stack ((undo m ^^ k) s) \<noteq> []"
  by (induction k) (simp_all add: undo_nonempty)

lemma undo_single: "length (undo_stack s) = 1 \<Longrightarrow> undo m s = s"
  by (simp add: undo_def)

text \<open>
  C9. The undo stack of a new editor has an entry, and no callback (add, delete, clear, the
  mouse gestures with the move commit, reorder, copy, paste, undo, redo, new project, both
  imports) empties it, so it has an entry in every state a session reaches; \<^verbatim>\<open>undo\<close>
  changes nothing when the stack has one entry, and repeated undo never empties the stack.
\<close>

theorem undo_stack_never_empty:
  "undo_stack editor_init \<noteq> [] \<and>
   (undo_stack s \<noteq> [] \<longrightarrow> undo_stack (step m s e) \<noteq> []) \<and>
   undo_stack (run editor_init evs) \<noteq> [] \<and>
   (length (undo_stack s) = 1 \<longrightarrow> undo m s = s) \<and>
   (undo_stack s \<noteq> [] \<longrightarrow> undo_stack ((undo m ^^ k) s) \<noteq> [])"
proof (intro conjI impI)
  show i: "undo_stack editor_init \<noteq> []" by (simp add: editor_init_undo_stack)
  show "undo_stack (run editor_init evs) \<noteq> []" using i by (rule run_nonempty)
  show "undo_stack (step m s e) \<noteq> []" if "undo_stack s \<noteq> []" using that by (rule step_nonempty)
  show "undo m s = s" if "length (undo_stack s) = 1" using that by (rule undo_single)
  show "undo_stack ((undo m ^^ k) s) \<noteq> []" if "undo_stack s \<noteq> []"
    using that by (rule undo_iter_nonempty)
qed

theorem undo_stack_never_empty_witness:
  "undo_stack editor_init \<noteq> [] \<and> length (undo_stack editor_init) = 1 \<and>
   undo_stack (step (\<lambda>t f z. None) editor_init
      (AddObject ''text'' ''1b9d6bcd-bbfd-4b2d-9b5d-ab8dfbbd4bed'')) \<noteq> [] \<and>
   undo (\<lambda>t f z. None) editor_init = editor_init \<and>
   undo_stack ((undo (\<lambda>t f z. None) ^^ 3) editor_init) \<noteq> []"
proof -
  have h1: "undo_stack editor_init \<noteq> []" by (simp add: editor_init_undo_stack)
  have h2: "length (undo_stack editor_init) = 1" by (simp add: editor_init_undo_stack)
  show ?thesis
    using h1 h2 undo_stack_never_empty [of editor_init "\<lambda>t f z. None"
        "AddObject ''text'' ''1b9d6bcd-bbfd-4b2d-9b5d-ab8dfbbd4bed''" "[]" 3]
    by blast
qed

subsection \<open>Copy\<close>

text \<open>
  C10. \<^verbatim>\<open>copy_object\<close> leaves the object list, the objects themselves, the undo stack and
  the redo stack as they are: it only puts into the clipboard a copy of the selected object
  with the selection flag cleared, and it changes nothing when no object is selected.
\<close>

theorem copy_object_frame:
  "objects (copy_object s) = objects s \<and> store (copy_object s) = store s \<and>
   scene (copy_object s) = scene s \<and>
   undo_stack (copy_object s) = undo_stack s \<and> redo_stack (copy_object s) = redo_stack s \<and>
   selected_object (copy_object s) = selected_object s \<and>
   clipboard_object (copy_object s) =
     (case selected_object s of
        Some r \<Rightarrow> Some ((store s r)\<lparr>o_selected := False\<rparr>)
      | None \<Rightarrow> clipboard_object s) \<and>
   (selected_object s = None \<longrightarrow> copy_object s = s)"
  by (cases "selected_object s") (simp_all add: copy_object_def scene_def)

theorem copy_object_frame_witness:
  "selected_object editor_init = None \<and> copy_object editor_init = editor_init"
proof -
  have h: "selected_object editor_init = None"
    by (simp add: editor_init_def save_state_def Let_def)
  show ?thesis
    using h copy_object_frame [of editor_init] by blast
qed

subsection \<open>Undo and redo\<close>

lemma hist_undo: "undo_stack s \<noteq> [] \<Longrightarrow> hist (undo m s) = hist s"
  by (simp add: hist_def undo_stack_undo redo_stack_undo)

lemma hist_redo: "hist (redo m s) = hist s"
proof (cases "redo_stack s" rule: rev_cases)
  case Nil
  then show ?thesis by (simp add: redo_def)
next
  case (snoc R x)
  then show ?thesis by (simp add: hist_def undo_stack_redo redo_stack_redo)
qed

lemma synced_undo: "synced m s \<Longrightarrow> synced m (undo m s)"
proof (cases "length (undo_stack s) > 1")
  case True
  assume "synced m s"
  have "butlast (undo_stack s) \<noteq> []"
    using True by (cases "undo_stack s" rule: rev_cases) auto
  then show ?thesis
    using True by (simp add: synced_def undo_stack_undo scene_undo)
next
  case False
  assume "synced m s"
  with False show ?thesis by (simp add: undo_def)
qed

lemma synced_redo: "synced m s \<Longrightarrow> synced m (redo m s)"
proof (cases "redo_stack s = []")
  case True
  assume "synced m s"
  with True show ?thesis by (simp add: redo_def)
next
  case False
  then show ?thesis by (simp add: synced_def undo_stack_redo scene_redo)
qed

lemma undo_iter:
  "synced m s \<Longrightarrow>
   synced m ((undo m ^^ k) s) \<and> hist ((undo m ^^ k) s) = hist s \<and>
   length (redo_stack ((undo m ^^ k) s)) \<le> length (redo_stack s) + k"
proof (induction k)
  case 0
  then show ?case by simp
next
  case (Suc k)
  let ?t = "(undo m ^^ k) s"
  from Suc have t: "synced m ?t" "hist ?t = hist s"
    "length (redo_stack ?t) \<le> length (redo_stack s) + k" by simp_all
  have ne: "undo_stack ?t \<noteq> []" using t(1) by (simp add: synced_def)
  have "length (redo_stack (undo m ?t)) \<le> length (redo_stack ?t) + 1"
    by (simp add: redo_stack_undo)
  with t ne show ?case
    by (simp add: synced_undo hist_undo)
qed

lemma redo_iter:
  "synced m s \<Longrightarrow>
   synced m ((redo m ^^ k) s) \<and> hist ((redo m ^^ k) s) = hist s \<and>
   length (redo_stack ((redo m ^^ k) s)) = length (redo_stack s) - k"
proof (induction k)
  case 0
  then show ?case by simp
next
  case (Suc k)
  let ?t = "(redo m ^^ k) s"
  from Suc have t: "synced m ?t" "hist ?t = hist s"
    "length (redo_stack ?t) = length (redo_stack s) - k" by simp_all
  have "length (redo_stack (redo m ?t)) = length (redo_stack ?t) - 1"
    by (simp add: redo_stack_redo)
  with t show ?case
    by (simp add: synced_redo hist_redo)
qed

lemma undo_redo_restores:
  assumes "committed s" and "redrawn m s"
  shows "scene ((redo m ^^ k) ((undo m ^^ k) s)) = scene s"
proof -
  let ?t = "(undo m ^^ k) s"
  let ?r = "(redo m ^^ k) ?t"
  have s0: "synced m s"
    using assms by (simp add: synced_def committed_def redrawn_def)
  note u = undo_iter [OF s0, of k]
  from u have st: "synced m ?t" by simp
  note r = redo_iter [OF st, of k]
  have "length (redo_stack ?t) \<le> k"
    using u assms(1) by (simp add: committed_def)
  with r have e: "redo_stack ?r = []" by simp
  have "hist ?r = hist s" using u r by simp
  with e assms(1) have "undo_stack ?r = undo_stack s"
    by (simp add: hist_def committed_def)
  moreover have "synced m ?r" using r by simp
  ultimately have "scene ?r = map (draw_object m) (last (undo_stack s))"
    by (simp add: synced_def)
  then show ?thesis
    using assms by (simp add: committed_def redrawn_def)
qed

lemma committed_save_state: "committed (save_state s)"
  by (simp add: committed_def save_state_nonempty save_state_last save_state_fields)

lemma redrawn_save_redraw: "redrawn m (save_state (redraw_objects m s))"
  by (simp add: redrawn_def save_state_fields scene_redraw_objects draw_object_idem)

lemma load_objects_finished:
  "fst (load_objects uuids k entries s) = list_all (\<lambda>entry. \<not> isl entry) entries"
  by (induction uuids k entries s rule: load_objects.induct)
     (simp_all add: alloc_def Let_def split: prod.splits)

lemma commits_form:
  assumes "commits s e" and "e \<noteq> CanvasRelease"
  shows "\<exists>x. step m s e = save_state (redraw_objects m x)"
proof (cases e)
  case (AddObject ty u)
  with assms show ?thesis
    by (auto simp: run_callback_def add_object_def ebind_def Let_def
        split: sum.splits prod.splits)
next
  case DeleteSelected
  with assms show ?thesis
    by (auto simp: run_callback_def delete_selected_def ebind_def Let_def
        split: sum.splits option.splits)
next
  case (ClearAll c)
  with assms show ?thesis by (auto simp: clear_all_def Let_def)
next
  case (PasteObject u)
  with assms show ?thesis
    by (auto simp: paste_object_def Let_def split: option.splits prod.splits)
next
  case BringForward
  with assms show ?thesis
    by (auto simp: run_callback_def bring_forward_def ebind_def Let_def
        split: sum.splits option.splits)
next
  case SendBackward
  with assms show ?thesis
    by (auto simp: run_callback_def send_backward_def ebind_def Let_def
        split: sum.splits option.splits)
next
  case (NewProject c)
  with assms show ?thesis by (auto simp: new_project_def Let_def)
next
  case (ImportZpl filename content uuids answer)
  with assms show ?thesis
    by (auto simp: import_zpl_file_def Let_def split: sum.splits prod.splits)
next
  case (ImportProject filename loaded uuids)
  with assms obtain pd where pd: "filename \<noteq> []" "loaded = Inr pd"
    "pd_label_settings pd \<noteq> Some (Inl e')" for e'
    by (auto split: sum.splits option.splits)
  define s1 where "s1 = (case pd_label_settings pd of
        Some (Inr ls) \<Rightarrow> s\<lparr>label_settings := ls\<rparr> | _ \<Rightarrow> s)"
  define res where "res = (case pd_objects pd of
        Some entries \<Rightarrow> load_objects uuids 0 entries (s1\<lparr>objects := []\<rparr>)
      | None \<Rightarrow> (True, s1\<lparr>objects := []\<rparr>))"
  have fin: "fst res"
    using assms ImportProject pd
    by (auto simp: res_def load_objects_finished split: option.splits)
  have "import_project m filename loaded uuids s =
      (if fst res then save_state (redraw_objects m ((snd res)\<lparr>selected_object := None\<rparr>))
       else snd res)"
    using pd
    by (simp add: import_project_def Let_def s1_def res_def
        split: option.splits sum.splits prod.splits)
  with fin ImportProject show ?thesis by auto
qed (use assms in simp_all)

lemma editor_init_fields:
  "label_settings editor_init = LabelSettings_default" "objects editor_init = []"
  "next_ref editor_init = 0" "selected_object editor_init = None"
  "drag_item editor_init = None" "clipboard_object editor_init = None"
  "redo_stack editor_init = []" "scene editor_init = []"
  by (simp_all add: editor_init_def save_state_def Let_def scene_def)

text \<open>
  C3. Take any state, for instance the one that N - 1 operations have left, and any
  callback that commits a snapshot there (the N-th operation). Calling \<^verbatim>\<open>undo\<close> \<open>k\<close>
  times and then \<^verbatim>\<open>redo\<close> \<open>k\<close> times, with nothing in between, gives back the scene
  the N-th operation left, for every \<open>k\<close>: for \<open>k = N\<close>, and for any number of calls
  beyond the point where undo has become a no-op. The canvas metrics \<open>m\<close> are those of the
  N-th operation; the mouse release does not redraw, so for it the scene is taken as last
  redrawn under \<open>m\<close>.
\<close>

theorem undo_redo_symmetry:
  assumes "commits s0 e" and "e = CanvasRelease \<longrightarrow> redrawn m s0"
  shows "scene ((redo m ^^ k) ((undo m ^^ k) (step m s0 e))) = scene (step m s0 e)"
proof -
  have "committed (step m s0 e) \<and> redrawn m (step m s0 e)"
  proof (cases "e = CanvasRelease")
    case True
    with assms have d: "drag_item s0 \<noteq> None" and r: "redrawn m s0" by simp_all
    have "committed (save_state s0)" by (rule committed_save_state)
    then have "committed ((save_state s0)\<lparr>drag_item := None\<rparr>)"
      by (simp add: committed_def scene_def)
    moreover have "redrawn m ((save_state s0)\<lparr>drag_item := None\<rparr>)"
      using r by (simp add: redrawn_def scene_def save_state_fields)
    ultimately show ?thesis
      using True d by (simp add: on_canvas_release_def Let_def)
  next
    case False
    from commits_form [OF assms(1) False, of m]
    obtain x where "step m s0 e = save_state (redraw_objects m x)" by blast
    then show ?thesis
      by (simp add: committed_save_state redrawn_save_redraw)
  qed
  then show ?thesis
    by (simp add: undo_redo_restores)
qed

theorem undo_redo_symmetry_witness:
  "commits editor_init (AddObject ''text'' ''1b9d6bcd-bbfd-4b2d-9b5d-ab8dfbbd4bed'') \<and>
   scene ((redo no_metrics ^^ 3) ((undo no_metrics ^^ 3)
      (step no_metrics editor_init (AddObject ''text'' ''1b9d6bcd-bbfd-4b2d-9b5d-ab8dfbbd4bed'')))) =
     scene (step no_metrics editor_init (AddObject ''text'' ''1b9d6bcd-bbfd-4b2d-9b5d-ab8dfbbd4bed'')) \<and>
   commits (editor_init\<lparr>drag_item := Some 0\<rparr>) CanvasRelease \<and>
   redrawn no_metrics (editor_init\<lparr>drag_item := Some 0\<rparr>) \<and>
   scene ((redo no_metrics ^^ 3) ((undo no_metrics ^^ 3)
      (step no_metrics (editor_init\<lparr>drag_item := Some 0\<rparr>) CanvasRelease))) =
     scene (step no_metrics (editor_init\<lparr>drag_item := Some 0\<rparr>) CanvasRelease)"
proof -
  have h1: "commits editor_init (AddObject ''text'' ''1b9d6bcd-bbfd-4b2d-9b5d-ab8dfbbd4bed'')"
    by (simp add: editor_init_fields snap_to_grid_def LabelSettings_default_def)
  have h2: "AddObject ''text'' ''1b9d6bcd-bbfd-4b2d-9b5d-ab8dfbbd4bed'' = CanvasRelease \<longrightarrow>
      redrawn no_metrics editor_init" by simp
  have h3: "commits (editor_init\<lparr>drag_item := Some 0\<rparr>) CanvasRelease" by simp
  have h4: "redrawn no_metrics (editor_init\<lparr>drag_item := Some 0\<rparr>)"
    using editor_init_fields(8) by (simp add: redrawn_def scene_def)
  have h5: "CanvasRelease = CanvasRelease \<longrightarrow> redrawn no_metrics (editor_init\<lparr>drag_item := Some 0\<rparr>)"
    using h4 by simp
  show ?thesis
    using h1 h3 h4 undo_redo_symmetry [OF h1 h2, of 3] undo_redo_symmetry [OF h3 h5, of 3]
    by blast
qed

subsection \<open>The history bound\<close>

lemma nth_prefixes: "j \<le> length xs \<Longrightarrow> prefixes xs ! j = take j xs"
proof (induction xs arbitrary: j rule: rev_induct)
  case Nil
  then show ?case by simp
next
  case (snoc x xs)
  show ?case
  proof (cases "j \<le> length xs")
    case True
    with snoc show ?thesis by (simp add: nth_append)
  next
    case False
    with snoc.prems have "j = Suc (length xs)" by simp
    then show ?thesis by (simp add: nth_append)
  qed
qed

lemma add_all_snoc:
  "add_all m (ops @ [(ty, u)]) s = run_callback (add_object m ty u) (add_all m ops s)"
  by (simp add: add_all_def)

lemma add_object_off:
  assumes "\<not> snap_to_grid_on (label_settings s)"
  shows "run_callback (add_object m ty u) s =
     save_state (redraw_objects m (select_object m (Some (next_ref s))
       ((snd (alloc (default_object u ty 50 50) s))\<lparr>objects := objects s @ [next_ref s]\<rparr>)))"
  using assms
  by (simp add: run_callback_def add_object_def snap_to_grid_def ebind_def alloc_def Let_def)

lemma add_object_off_fields:
  assumes "\<not> snap_to_grid_on (label_settings s)"
  shows "label_settings (run_callback (add_object m ty u) s) = label_settings s"
    and "objects (run_callback (add_object m ty u) s) = objects s @ [next_ref s]"
    and "committed (run_callback (add_object m ty u) s)"
    and "redrawn m (run_callback (add_object m ty u) s)"
    and "undo_stack (run_callback (add_object m ty u) s) =
       (if length (undo_stack s) \<ge> max_undo_steps
        then tl (undo_stack s @ [scene (run_callback (add_object m ty u) s)])
        else undo_stack s @ [scene (run_callback (add_object m ty u) s)])"
proof -
  let ?x = "redraw_objects m (select_object m (Some (next_ref s))
       ((snd (alloc (default_object u ty 50 50) s))\<lparr>objects := objects s @ [next_ref s]\<rparr>))"
  have e: "run_callback (add_object m ty u) s = save_state ?x"
    by (rule add_object_off [OF assms])
  show "label_settings (run_callback (add_object m ty u) s) = label_settings s"
    unfolding e by (simp add: save_state_fields redraw_objects_fields select_object_fields alloc_def)
  show "objects (run_callback (add_object m ty u) s) = objects s @ [next_ref s]"
    unfolding e by (simp add: save_state_fields redraw_objects_fields select_object_fields alloc_def)
  show "committed (run_callback (add_object m ty u) s)"
    unfolding e by (rule committed_save_state)
  show "redrawn m (run_callback (add_object m ty u) s)"
    unfolding e by (rule redrawn_save_redraw)
  have u: "undo_stack ?x = undo_stack s"
    by (simp add: redraw_objects_fields select_object_fields alloc_def)
  show "undo_stack (run_callback (add_object m ty u) s) =
       (if length (undo_stack s) \<ge> max_undo_steps
        then tl (undo_stack s @ [scene (run_callback (add_object m ty u) s)])
        else undo_stack s @ [scene (run_callback (add_object m ty u) s)])"
    unfolding e by (simp add: save_state_undo_stack u save_state_fields)
qed

lemma tl_drop_snoc: "d < length L \<Longrightarrow> tl (drop d L @ [x]) = drop (Suc d) (L @ [x])"
  by (simp add: drop_Suc tl_drop)

lemma add_all_invariant:
  "label_settings (add_all m ops editor_init) = LabelSettings_default \<and>
   length (objects (add_all m ops editor_init)) = length ops \<and>
   committed (add_all m ops editor_init) \<and>
   redrawn m (add_all m ops editor_init) \<and>
   undo_stack (add_all m ops editor_init) =
     drop (length ops + 1 - max_undo_steps)
       (map (\<lambda>p. scene (add_all m p editor_init)) (prefixes ops))"
proof (induction ops rule: rev_induct)
  case Nil
  show ?case
    by (simp add: add_all_def editor_init_fields editor_init_undo_stack committed_def redrawn_def
        max_undo_steps_def)
next
  case (snoc op ops)
  obtain ty u where op: "op = (ty, u)" by (cases op)
  let ?s = "add_all m ops editor_init"
  let ?L = "map (\<lambda>p. scene (add_all m p editor_init)) (prefixes ops)"
  have off: "\<not> snap_to_grid_on (label_settings ?s)"
    using snoc by (simp add: LabelSettings_default_def)
  note f = add_object_off_fields [OF off, of m ty u]
  have e: "add_all m (ops @ [op]) editor_init = run_callback (add_object m ty u) ?s"
    by (simp add: op add_all_snoc)
  have len: "length (undo_stack ?s) = min (length ops + 1) max_undo_steps"
    using snoc by (simp add: max_undo_steps_def)
  have st: "undo_stack (add_all m (ops @ [op]) editor_init) =
     drop (length (ops @ [op]) + 1 - max_undo_steps)
       (map (\<lambda>p. scene (add_all m p editor_init)) (prefixes (ops @ [op])))"
  proof (cases "length ops + 1 \<ge> max_undo_steps")
    case True
    have d: "length ops + 1 - max_undo_steps < length ?L"
      by (simp add: max_undo_steps_def)
    have "undo_stack (add_all m (ops @ [op]) editor_init) =
        tl (drop (length ops + 1 - max_undo_steps) ?L @ [scene (add_all m (ops @ [op]) editor_init)])"
      using True len snoc f(5) by (simp add: e)
    also have "\<dots> = drop (Suc (length ops + 1 - max_undo_steps))
        (?L @ [scene (add_all m (ops @ [op]) editor_init)])"
      by (rule tl_drop_snoc [OF d])
    finally show ?thesis
      using True by (simp add: Suc_diff_le)
  next
    case False
    then have "undo_stack (add_all m (ops @ [op]) editor_init) =
        ?L @ [scene (add_all m (ops @ [op]) editor_init)]"
      using len snoc f(5) by (simp add: e)
    then show ?thesis
      using False by simp
  qed
  show ?case
    using snoc f(1-4) st by (simp add: e)
qed

lemma undo_stack_iter:
  assumes "undo_stack s \<noteq> []"
  shows "undo_stack ((undo m ^^ k) s) =
     take (length (undo_stack s) - min k (length (undo_stack s) - 1)) (undo_stack s)"
proof (induction k)
  case 0
  then show ?case by simp
next
  case (Suc k)
  let ?U = "undo_stack s"
  let ?j = "length ?U - min k (length ?U - 1)"
  have j: "1 \<le> ?j" "?j \<le> length ?U" using assms by (cases ?U; simp)+
  show ?case
  proof (cases "k < length ?U - 1")
    case True
    then have "length (take ?j ?U) > 1" by simp
    then have "undo_stack ((undo m ^^ Suc k) s) = butlast (take ?j ?U)"
      using Suc by (simp add: undo_stack_undo)
    also have "\<dots> = take (?j - 1) ?U"
      using j by (simp add: butlast_take)
    finally show ?thesis using True by (simp add: min_def)
  next
    case False
    then have "length (take ?j ?U) = 1" using assms by (cases ?U) (simp_all add: min_def)
    then have "undo_stack ((undo m ^^ Suc k) s) = take ?j ?U"
      using Suc by (simp add: undo_stack_undo)
    then show ?thesis using False by (simp add: min_def)
  qed
qed

lemma synced_undo_iter: "synced m s \<Longrightarrow> synced m ((undo m ^^ k) s)"
  by (induction k) (simp_all add: synced_undo)

text \<open>
  C2. In a new editor, 60 calls of \<^verbatim>\<open>add_object\<close> (of any object types, with any UUID
  strings) leave exactly 50 entries on the undo stack. From there 49 calls of \<^verbatim>\<open>undo\<close>,
  or more, end in the state where undo is a no-op: one entry is left, and the scene is the
  one the first 11 adds produced, with its 11 objects. The initial empty scene and the
  scenes of the first ten adds are no longer reachable.
\<close>

theorem history_bound:
  assumes "length ops = 60"
  shows "length (undo_stack (add_all m ops editor_init)) = 50 \<and>
     length (scene (add_all m (take 11 ops) editor_init)) = 11 \<and>
     (\<forall>k \<ge> 49.
        undo_stack ((undo m ^^ k) (add_all m ops editor_init)) =
          [scene (add_all m (take 11 ops) editor_init)] \<and>
        scene ((undo m ^^ k) (add_all m ops editor_init)) =
          scene (add_all m (take 11 ops) editor_init) \<and>
        undo m ((undo m ^^ k) (add_all m ops editor_init)) =
          (undo m ^^ k) (add_all m ops editor_init))"
proof -
  let ?s = "add_all m ops editor_init"
  let ?e = "add_all m (take 11 ops) editor_init"
  let ?L = "map (\<lambda>p. scene (add_all m p editor_init)) (prefixes ops)"
  note inv = add_all_invariant [of m ops]
  note inv11 = add_all_invariant [of m "take 11 ops"]
  have U: "undo_stack ?s = drop 11 ?L"
    using inv assms by (simp add: max_undo_steps_def)
  have len: "length (undo_stack ?s) = 50"
    unfolding U using assms by simp
  have hd: "take 1 (undo_stack ?s) = [scene ?e]"
  proof -
    have "take 1 (drop 11 ?L) = [?L ! 11]"
      using assms by (simp add: take_Suc_conv_app_nth [of 0] hd_drop_conv_nth take_Suc hd_conv_nth)
    also have "?L ! 11 = scene (add_all m (prefixes ops ! 11) editor_init)"
      using assms by simp
    also have "prefixes ops ! 11 = take 11 ops"
      using assms by (simp add: nth_prefixes)
    finally show ?thesis by (simp add: U)
  qed
  have l11: "length (scene ?e) = 11"
    using inv11 assms by (simp add: scene_def)
  have cr: "committed ?s" "redrawn m ?s"
    using inv by blast+
  have sy: "synced m ?s"
    using cr by (simp add: synced_def committed_def redrawn_def)
  have main: "undo_stack ((undo m ^^ k) ?s) = [scene ?e] \<and>
      scene ((undo m ^^ k) ?s) = scene ?e \<and>
      undo m ((undo m ^^ k) ?s) = (undo m ^^ k) ?s" if k: "k \<ge> 49" for k
  proof -
    have ne: "undo_stack ?s \<noteq> []" using len by auto
    have st: "undo_stack ((undo m ^^ k) ?s) = [scene ?e]"
      using undo_stack_iter [OF ne, where m = m and k = k] k len hd by (simp add: min_def)
    have "synced m ((undo m ^^ k) ?s)" using sy by (rule synced_undo_iter)
    then have "scene ((undo m ^^ k) ?s) = map (draw_object m) (scene ?e)"
      by (simp add: synced_def st)
    also have "\<dots> = scene ?e"
      using inv11 by (simp add: redrawn_def)
    finally have sc: "scene ((undo m ^^ k) ?s) = scene ?e" .
    have "undo m ((undo m ^^ k) ?s) = (undo m ^^ k) ?s"
      by (rule undo_single) (simp add: st)
    with st sc show ?thesis by simp
  qed
  show ?thesis
    using len l11 main by blast
qed

theorem history_bound_witness:
  "length sixty_adds = 60 \<and>
   length (undo_stack (add_all no_metrics sixty_adds editor_init)) = 50 \<and>
   length (scene (add_all no_metrics (take 11 sixty_adds) editor_init)) = 11 \<and>
   (49::nat) \<le> 49 \<and>
   scene ((undo no_metrics ^^ 49) (add_all no_metrics sixty_adds editor_init)) =
     scene (add_all no_metrics (take 11 sixty_adds) editor_init) \<and>
   undo no_metrics ((undo no_metrics ^^ 49) (add_all no_metrics sixty_adds editor_init)) =
     (undo no_metrics ^^ 49) (add_all no_metrics sixty_adds editor_init)"
proof -
  have h: "length sixty_adds = 60" by (simp add: sixty_adds_def)
  have k: "(49::nat) \<le> 49" by simp
  show ?thesis
    using h k history_bound [OF h, of no_metrics] by blast
qed

subsection \<open>Paste\<close>

lemma store_select_object:
  "store (select_object m (Some r) s) x =
     (if x \<in> set (objects s)
      then draw_object m (if x = r then (store s x)\<lparr>o_selected := True\<rparr>
                          else (store s x)\<lparr>o_selected := False\<rparr>)
      else if x = r then (store s x)\<lparr>o_selected := True\<rparr> else store s x)"
  by (simp add: select_object_def Let_def redraw_objects_def update_all_apply draw_object_idem)

lemma scene_append_new:
  assumes wf: "\<forall>r \<in> set (objects s). r < next_ref s"
  shows "scene (save_state (redraw_objects m (select_object m (Some (next_ref s))
       ((snd (alloc new s))\<lparr>objects := objects s @ [next_ref s]\<rparr>)))) =
     map (\<lambda>ob. draw_object m (ob\<lparr>o_selected := False\<rparr>)) (scene s) @
     [draw_object m (new\<lparr>o_selected := True\<rparr>)]"
proof -
  let ?s2 = "(snd (alloc new s))\<lparr>objects := objects s @ [next_ref s]\<rparr>"
  have old: "store (select_object m (Some (next_ref s)) ?s2) r =
      draw_object m ((store s r)\<lparr>o_selected := False\<rparr>)" if "r \<in> set (objects s)" for r
  proof -
    from that wf have "r \<noteq> next_ref s" by auto
    with that show ?thesis by (simp add: store_select_object alloc_def)
  qed
  have new: "store (select_object m (Some (next_ref s)) ?s2) (next_ref s) =
      draw_object m (new\<lparr>o_selected := True\<rparr>)"
    by (simp add: store_select_object alloc_def)
  have "scene (select_object m (Some (next_ref s)) ?s2) =
      map (\<lambda>ob. draw_object m (ob\<lparr>o_selected := False\<rparr>)) (scene s) @
      [draw_object m (new\<lparr>o_selected := True\<rparr>)]"
    using old new by (simp add: scene_def select_object_fields)
  then show ?thesis
    by (simp add: save_state_fields scene_redraw_objects draw_object_idem)
qed

lemma paste_object_form:
  assumes "clipboard_object s = Some c"
  shows "paste_object m u s =
     save_state (redraw_objects m (select_object m (Some (next_ref s))
       ((snd (alloc (c\<lparr>o_x := o_x c + 20, o_y := o_y c + 20, o_id := take 8 u\<rparr>) s))
          \<lparr>objects := objects s @ [next_ref s]\<rparr>)))"
  using assms by (simp add: paste_object_def Let_def post_init_def alloc_def)

text \<open>
  C6, amended. With an object \<open>c\<close> in the clipboard, \<^verbatim>\<open>paste_object\<close> appends one object
  to the scene: the copy of \<open>c\<close> at exactly \<open>(x + 20, y + 20)\<close>, selected, whose id is the
  first eight characters of the UUID string drawn for it. The ids of the objects already
  in the scene are kept, and the new id differs from all of them whenever that token is
  not among them. (The references of the scene are below \<open>next_ref\<close>, which holds in
  every state of every session, as shown at the end.)
\<close>

theorem paste_object_appends:
  assumes "clipboard_object s = Some c" and "\<forall>r \<in> set (objects s). r < next_ref s"
  shows "scene (paste_object m u s) =
       map (\<lambda>ob. draw_object m (ob\<lparr>o_selected := False\<rparr>)) (scene s) @
       [draw_object m (c\<lparr>o_x := o_x c + 20, o_y := o_y c + 20, o_id := take 8 u,
                         o_selected := True\<rparr>)] \<and>
     map o_id (scene (paste_object m u s)) = map o_id (scene s) @ [take 8 u] \<and>
     o_x (last (scene (paste_object m u s))) = o_x c + 20 \<and>
     o_y (last (scene (paste_object m u s))) = o_y c + 20 \<and>
     (take 8 u \<notin> set (map o_id (scene s)) \<longrightarrow>
        (\<forall>ob \<in> set (scene s). o_id ob \<noteq> o_id (last (scene (paste_object m u s)))))"
proof -
  have sc: "scene (paste_object m u s) =
       map (\<lambda>ob. draw_object m (ob\<lparr>o_selected := False\<rparr>)) (scene s) @
       [draw_object m (c\<lparr>o_x := o_x c + 20, o_y := o_y c + 20, o_id := take 8 u,
                         o_selected := True\<rparr>)]"
    unfolding paste_object_form [OF assms(1)]
    using scene_append_new [OF assms(2), of m "c\<lparr>o_x := o_x c + 20, o_y := o_y c + 20, o_id := take 8 u\<rparr>"]
    by simp
  have ids: "map o_id (scene (paste_object m u s)) = map o_id (scene s) @ [take 8 u]"
    unfolding sc by (simp add: draw_object_keeps comp_def)
  have lst: "last (scene (paste_object m u s)) =
      draw_object m (c\<lparr>o_x := o_x c + 20, o_y := o_y c + 20, o_id := take 8 u,
                         o_selected := True\<rparr>)"
    unfolding sc by simp
  have fresh: "take 8 u \<notin> set (map o_id (scene s)) \<longrightarrow>
        (\<forall>ob \<in> set (scene s). o_id ob \<noteq> o_id (last (scene (paste_object m u s))))"
  proof (intro impI ballI)
    fix ob
    assume n: "take 8 u \<notin> set (map o_id (scene s))" and "ob \<in> set (scene s)"
    then have "o_id ob \<in> set (map o_id (scene s))" by simp
    with n show "o_id ob \<noteq> o_id (last (scene (paste_object m u s)))"
      unfolding lst by (auto simp: draw_object_keeps)
  qed
  have pos: "o_x (last (scene (paste_object m u s))) = o_x c + 20"
    "o_y (last (scene (paste_object m u s))) = o_y c + 20"
    unfolding lst by (simp_all add: draw_object_keeps)
  show ?thesis
    using sc ids pos fresh by blast
qed

lemma appended_fields:
  "objects (save_state (redraw_objects m (select_object m (Some (next_ref s))
       ((snd (alloc new s))\<lparr>objects := objects s @ [next_ref s]\<rparr>)))) = objects s @ [next_ref s]"
  "next_ref (save_state (redraw_objects m (select_object m (Some (next_ref s))
       ((snd (alloc new s))\<lparr>objects := objects s @ [next_ref s]\<rparr>)))) = Suc (next_ref s)"
  "selected_object (save_state (redraw_objects m (select_object m (Some (next_ref s))
       ((snd (alloc new s))\<lparr>objects := objects s @ [next_ref s]\<rparr>)))) = Some (next_ref s)"
  "clipboard_object (save_state (redraw_objects m (select_object m (Some (next_ref s))
       ((snd (alloc new s))\<lparr>objects := objects s @ [next_ref s]\<rparr>)))) = clipboard_object s"
  by (simp_all add: save_state_fields redraw_objects_fields select_object_fields alloc_def)

lemma draw_no_metrics: "draw_object no_metrics obj = obj"
  by (simp add: draw_object_def no_metrics_def)

lemma add_and_copy_state:
  "objects (run editor_init add_and_copy) = [0]"
  "next_ref (run editor_init add_and_copy) = 1"
  "scene (run editor_init add_and_copy) =
     [(default_object ''1b9d6bcd-bbfd-4b2d-9b5d-ab8dfbbd4bed'' ''text'' 50 50)\<lparr>o_selected := True\<rparr>]"
  "clipboard_object (run editor_init add_and_copy) =
     Some ((default_object ''1b9d6bcd-bbfd-4b2d-9b5d-ab8dfbbd4bed'' ''text'' 50 50)\<lparr>o_selected := False\<rparr>)"
proof -
  let ?obj = "default_object ''1b9d6bcd-bbfd-4b2d-9b5d-ab8dfbbd4bed'' ''text'' 50 50"
  let ?s1 = "run_callback (add_object no_metrics ''text'' ''1b9d6bcd-bbfd-4b2d-9b5d-ab8dfbbd4bed'') editor_init"
  have off: "\<not> snap_to_grid_on (label_settings editor_init)"
    by (simp add: editor_init_fields LabelSettings_default_def)
  have wf0: "\<forall>r \<in> set (objects editor_init). r < next_ref editor_init"
    by (simp add: editor_init_fields)
  have e1: "?s1 = save_state (redraw_objects no_metrics (select_object no_metrics
       (Some (next_ref editor_init))
       ((snd (alloc ?obj editor_init))\<lparr>objects := objects editor_init @ [next_ref editor_init]\<rparr>)))"
    by (rule add_object_off [OF off])
  have o1': "objects ?s1 = objects editor_init @ [next_ref editor_init]"
    unfolding e1 by (rule appended_fields)
  have n1': "next_ref ?s1 = Suc (next_ref editor_init)"
    unfolding e1 by (rule appended_fields)
  have sel1': "selected_object ?s1 = Some (next_ref editor_init)"
    unfolding e1 by (rule appended_fields)
  have o1: "objects ?s1 = [0]" and n1: "next_ref ?s1 = 1" and sel1: "selected_object ?s1 = Some 0"
    using o1' n1' sel1' by (simp_all add: editor_init_fields)
  have sc1: "scene ?s1 = [?obj\<lparr>o_selected := True\<rparr>]"
    unfolding e1 using scene_append_new [OF wf0, of no_metrics ?obj]
    by (simp add: editor_init_fields draw_no_metrics)
  have st1: "store ?s1 0 = ?obj\<lparr>o_selected := True\<rparr>"
    using sc1 o1 by (simp add: scene_def)
  have r: "run editor_init add_and_copy = copy_object ?s1"
    by (simp add: run_def add_and_copy_def)
  show "objects (run editor_init add_and_copy) = [0]"
    unfolding r using o1 by (simp add: copy_object_def sel1)
  show "next_ref (run editor_init add_and_copy) = 1"
    unfolding r using n1 by (simp add: copy_object_def sel1)
  show "scene (run editor_init add_and_copy) = [?obj\<lparr>o_selected := True\<rparr>]"
    unfolding r using sc1 by (simp add: copy_object_def sel1 scene_def)
  show "clipboard_object (run editor_init add_and_copy) = Some (?obj\<lparr>o_selected := False\<rparr>)"
    unfolding r by (simp add: copy_object_def sel1 st1)
qed

lemma default_text_id:
  "o_id (default_object ''1b9d6bcd-bbfd-4b2d-9b5d-ab8dfbbd4bed'' ''text'' 50 50) = ''1b9d6bcd''"
  by (simp add: obj_eval)

text \<open>
  C6 as stated: the id of a pasted object is the first eight characters of a random UUID
  and is not compared with the ids in use. In the session below the UUID drawn for the
  paste starts with the eight characters of the copied object's id, and the scene then
  holds two objects with the same id.
\<close>

theorem paste_id_collision_counterexample:
  "map o_id (scene (run editor_init add_and_copy)) = [''1b9d6bcd''] \<and>
   map o_id (scene (run editor_init collision_session)) = [''1b9d6bcd'', ''1b9d6bcd'']"
proof -
  let ?obj = "default_object ''1b9d6bcd-bbfd-4b2d-9b5d-ab8dfbbd4bed'' ''text'' 50 50"
  let ?c = "?obj\<lparr>o_selected := False\<rparr>"
  let ?s2 = "run editor_init add_and_copy"
  have wf2: "\<forall>r \<in> set (objects ?s2). r < next_ref ?s2"
    by (simp add: add_and_copy_state)
  have r: "run editor_init collision_session =
      paste_object no_metrics ''1b9d6bcd-e29b-41d4-a716-446655440000'' ?s2"
    by (simp add: run_def collision_session_def)
  have "scene (run editor_init collision_session) =
      map (\<lambda>ob. draw_object no_metrics (ob\<lparr>o_selected := False\<rparr>)) (scene ?s2) @
      [draw_object no_metrics
         ((?c\<lparr>o_x := o_x ?c + 20, o_y := o_y ?c + 20,
               o_id := take 8 ''1b9d6bcd-e29b-41d4-a716-446655440000''\<rparr>)\<lparr>o_selected := True\<rparr>)]"
    unfolding r paste_object_form [OF add_and_copy_state(4)]
    by (rule scene_append_new [OF wf2])
  then have "map o_id (scene (run editor_init collision_session)) = [''1b9d6bcd'', ''1b9d6bcd'']"
    by (simp add: add_and_copy_state draw_no_metrics default_text_id)
  then show ?thesis
    by (simp add: add_and_copy_state default_text_id)
qed

theorem paste_object_appends_witness:
  "clipboard_object (run editor_init add_and_copy) =
     Some ((default_object ''1b9d6bcd-bbfd-4b2d-9b5d-ab8dfbbd4bed'' ''text'' 50 50)\<lparr>o_selected := False\<rparr>) \<and>
   objects (run editor_init add_and_copy) = [0] \<and>
   next_ref (run editor_init add_and_copy) = 1 \<and>
   map o_id (scene (run editor_init add_and_copy)) = [''1b9d6bcd''] \<and>
   map o_id (scene (paste_object no_metrics ''9c5b94b1-35ad-49bb-b118-8e8fc24abf80''
       (run editor_init add_and_copy))) = [''1b9d6bcd'', ''9c5b94b1''] \<and>
   o_x (last (scene (paste_object no_metrics ''9c5b94b1-35ad-49bb-b118-8e8fc24abf80''
       (run editor_init add_and_copy)))) = 70 \<and>
   o_y (last (scene (paste_object no_metrics ''9c5b94b1-35ad-49bb-b118-8e8fc24abf80''
       (run editor_init add_and_copy)))) = 70"
proof -
  let ?s2 = "run editor_init add_and_copy"
  let ?c = "(default_object ''1b9d6bcd-bbfd-4b2d-9b5d-ab8dfbbd4bed'' ''text'' 50 50)\<lparr>o_selected := False\<rparr>"
  have h1: "clipboard_object ?s2 = Some ?c" by (rule add_and_copy_state(4))
  have h2: "\<forall>r \<in> set (objects ?s2). r < next_ref ?s2" by (simp add: add_and_copy_state)
  have ids: "map o_id (scene ?s2) = [''1b9d6bcd'']"
    by (simp add: add_and_copy_state default_text_id)
  have xy: "o_x ?c + 20 = 70" "o_y ?c + 20 = 70" by (simp_all add: obj_eval)
  have t: "take 8 ''9c5b94b1-35ad-49bb-b118-8e8fc24abf80'' = ''9c5b94b1''" by simp
  note p = paste_object_appends [OF h1 h2, of no_metrics "''9c5b94b1-35ad-49bb-b118-8e8fc24abf80''"]
  from p have a: "map o_id (scene (paste_object no_metrics ''9c5b94b1-35ad-49bb-b118-8e8fc24abf80'' ?s2)) =
      map o_id (scene ?s2) @ [take 8 ''9c5b94b1-35ad-49bb-b118-8e8fc24abf80'']" by blast
  from p have b: "o_x (last (scene (paste_object no_metrics ''9c5b94b1-35ad-49bb-b118-8e8fc24abf80'' ?s2))) =
      o_x ?c + 20" by blast
  from p have c: "o_y (last (scene (paste_object no_metrics ''9c5b94b1-35ad-49bb-b118-8e8fc24abf80'' ?s2))) =
      o_y ?c + 20" by blast
  have a': "map o_id (scene (paste_object no_metrics ''9c5b94b1-35ad-49bb-b118-8e8fc24abf80'' ?s2)) =
      [''1b9d6bcd'', ''9c5b94b1'']"
    unfolding a ids t by simp
  show ?thesis
    using h1 add_and_copy_state(1,2) ids a' b [unfolded xy] c [unfolded xy] by blast
qed

subsection \<open>References of the scene are allocated\<close>

lemma py_remove_subset: "py_remove st v rs = Inr rs' \<Longrightarrow> set rs' \<subseteq> set rs"
  by (induction rs arbitrary: rs') (auto simp: ebind_def split: if_splits sum.splits)

lemma py_list_index_less: "py_list_index st v rs = Inr i \<Longrightarrow> i < length rs"
  by (induction rs arbitrary: i) (auto simp: ebind_def split: if_splits sum.splits)

lemma set_swap_refs: "i < length xs \<Longrightarrow> j < length xs \<Longrightarrow> set (swap i j xs) = set xs"
  by (simp add: swap_def set_swap)

lemma load_objects_allocated:
  "\<forall>r \<in> set (objects s). r < next_ref s \<Longrightarrow>
   \<forall>r \<in> set (objects (snd (load_objects uuids k entries s))).
      r < next_ref (snd (load_objects uuids k entries s))"
  by (induction uuids k entries s rule: load_objects.induct)
     (auto simp: alloc_def Let_def less_Suc_eq)

lemma refs_allocated_appended:
  "refs_allocated s \<Longrightarrow>
   refs_allocated (save_state (redraw_objects m (select_object m (Some (next_ref s))
       ((snd (alloc new s))\<lparr>objects := objects s @ [next_ref s]\<rparr>))))"
  by (auto simp: refs_allocated_def appended_fields less_Suc_eq)

lemma refs_allocated_add_object:
  "refs_allocated s \<Longrightarrow> refs_allocated (run_callback (add_object m ty u) s)"
proof -
  assume a: "refs_allocated s"
  have "run_callback (add_object m ty u) s = s \<or>
      (\<exists>new. run_callback (add_object m ty u) s =
         save_state (redraw_objects m (select_object m (Some (next_ref s))
           ((snd (alloc new s))\<lparr>objects := objects s @ [next_ref s]\<rparr>))))"
    by (auto simp: run_callback_def add_object_def ebind_def alloc_def Let_def
        split: sum.splits prod.splits)
  then show ?thesis using a refs_allocated_appended by auto
qed

lemma refs_allocated_paste_object:
  "refs_allocated s \<Longrightarrow> refs_allocated (paste_object m u s)"
proof (cases "clipboard_object s")
  case None
  assume "refs_allocated s"
  with None show ?thesis by (simp add: paste_object_def)
next
  case (Some c)
  assume "refs_allocated s"
  then show ?thesis
    unfolding paste_object_form [OF Some] by (rule refs_allocated_appended)
qed

lemma refs_allocated_delete_selected:
  "refs_allocated s \<Longrightarrow> refs_allocated (run_callback (delete_selected m) s)"
  by (auto simp: refs_allocated_def run_callback_def delete_selected_def ebind_def Let_def
      save_state_fields redraw_objects_fields
      split: sum.splits option.splits dest: py_remove_subset)

lemma refs_allocated_bring_forward:
  "refs_allocated s \<Longrightarrow> refs_allocated (run_callback (bring_forward m) s)"
proof -
  assume a: "refs_allocated s"
  have "run_callback (bring_forward m) s = s \<or>
      (\<exists>idx. idx < length (objects s) \<and> idx + 1 < length (objects s) \<and>
         run_callback (bring_forward m) s =
           save_state (redraw_objects m (s\<lparr>objects := swap idx (idx + 1) (objects s)\<rparr>)))"
    by (auto simp: run_callback_def bring_forward_def ebind_def Let_def
        split: sum.splits option.splits dest: py_list_index_less)
  then show ?thesis
    using a
    by (auto simp: refs_allocated_def save_state_fields redraw_objects_fields set_swap_refs)
qed

lemma refs_allocated_send_backward:
  assumes a: "refs_allocated s"
  shows "refs_allocated (run_callback (send_backward m) s)"
proof (cases "selected_object s")
  case None
  with a show ?thesis by (simp add: run_callback_def send_backward_def)
next
  case (Some r)
  show ?thesis
  proof (cases "py_list_index (store s) (store s r) (objects s)")
    case (Inl e)
    with Some a show ?thesis by (simp add: run_callback_def send_backward_def ebind_def)
  next
    case (Inr idx)
    then have "idx < length (objects s)" by (rule py_list_index_less)
    then have "set (swap idx (idx - 1) (objects s)) = set (objects s)"
      by (simp add: set_swap_refs)
    with Some Inr a show ?thesis
      by (simp add: refs_allocated_def run_callback_def send_backward_def ebind_def Let_def
          save_state_fields redraw_objects_fields)
  qed
qed

lemma refs_allocated_simple:
  "refs_allocated s \<Longrightarrow> refs_allocated (clear_all m confirmed s)"
  "refs_allocated s \<Longrightarrow> refs_allocated (new_project m confirmed s)"
  "refs_allocated s \<Longrightarrow> refs_allocated (on_canvas_click m x y s)"
  "refs_allocated s \<Longrightarrow> refs_allocated (run_callback (on_canvas_drag m dx dy) s)"
  "refs_allocated s \<Longrightarrow> refs_allocated (on_canvas_release s)"
  "refs_allocated s \<Longrightarrow> refs_allocated (copy_object s)"
  by (auto simp: refs_allocated_def clear_all_def new_project_def on_canvas_click_def
      run_callback_def on_canvas_drag_def on_canvas_release_def copy_object_def ebind_def Let_def
      save_state_fields redraw_objects_fields select_object_fields
      split: sum.splits option.splits prod.splits)

lemma refs_allocated_undo_redo:
  "refs_allocated s \<Longrightarrow> refs_allocated (undo m s)"
  "refs_allocated s \<Longrightarrow> refs_allocated (redo m s)"
  using set_objects_copy_fields(9)
  by (auto simp: refs_allocated_def undo_def redo_def Let_def redraw_objects_fields)

lemma refs_allocated_import_project:
  assumes a: "refs_allocated s"
  shows "refs_allocated (import_project m filename loaded uuids s)"
proof (cases "filename = []")
  case True
  then show ?thesis using a by (simp add: import_project_def)
next
  case False
  show ?thesis
  proof (cases loaded)
    case (Inl e)
    with False a show ?thesis by (simp add: import_project_def)
  next
    case (Inr pd)
    define s1 where "s1 = (case pd_label_settings pd of
        Some (Inr ls) \<Rightarrow> s\<lparr>label_settings := ls\<rparr> | _ \<Rightarrow> s)"
    define res where "res = (case pd_objects pd of
        Some entries \<Rightarrow> load_objects uuids 0 entries (s1\<lparr>objects := []\<rparr>)
      | None \<Rightarrow> (True, s1\<lparr>objects := []\<rparr>))"
    have e: "\<forall>r \<in> set (objects (s1\<lparr>objects := []\<rparr>)). r < next_ref (s1\<lparr>objects := []\<rparr>)"
      by simp
    have w: "refs_allocated (snd res)"
      unfolding refs_allocated_def res_def
      using load_objects_allocated [OF e] by (simp split: option.splits)
    have "import_project m filename loaded uuids s = s \<or>
        import_project m filename loaded uuids s =
          (if fst res then save_state (redraw_objects m ((snd res)\<lparr>selected_object := None\<rparr>))
           else snd res)"
      using False Inr
      by (simp add: import_project_def Let_def s1_def res_def
          split: option.splits sum.splits prod.splits)
    then show ?thesis
      using a w
      by (auto simp: refs_allocated_def save_state_fields redraw_objects_fields split: if_splits)
  qed
qed

lemma refs_allocated_import_zpl_file:
  assumes a: "refs_allocated s"
  shows "refs_allocated (import_zpl_file m filename content uuids answer s)"
proof -
  have k: "refs_allocated (save_state (redraw_objects m
      ((snd (alloc_list objs s'))\<lparr>objects := objects (snd (alloc_list objs s')) @ fst (alloc_list objs s'),
          selected_object := None\<rparr>)))" if "refs_allocated s'" for objs s'
  proof -
    obtain rs s2 where al: "alloc_list objs s' = (rs, s2)" by (cases "alloc_list objs s'")
    note f = alloc_list_frame [OF al]
    from f that show ?thesis
      by (auto simp: refs_allocated_def al save_state_fields redraw_objects_fields)
  qed
  show ?thesis
  proof (cases "filename = []")
    case True
    with a show ?thesis by (simp add: import_zpl_file_def)
  next
    case fn: False
    show ?thesis
    proof (cases "ebind content (parse_zpl_file uuids)")
      case (Inl e)
      with fn a show ?thesis by (simp add: import_zpl_file_def)
    next
      case (Inr objs)
      show ?thesis
      proof (cases "objs = [] \<or> (objects s \<noteq> [] \<and> answer = None)")
        case True
        with fn Inr a show ?thesis by (auto simp: import_zpl_file_def)
      next
        case False
        define s1 where "s1 = (if objects s \<noteq> [] \<and> answer = Some True then s\<lparr>objects := []\<rparr> else s)"
        have w: "refs_allocated s1"
          using a by (simp add: s1_def refs_allocated_def)
        have "import_zpl_file m filename content uuids answer s =
            save_state (redraw_objects m
              ((snd (alloc_list objs s1))\<lparr>objects := objects (snd (alloc_list objs s1)) @ fst (alloc_list objs s1),
                  selected_object := None\<rparr>))"
          using fn Inr False
          by (auto simp: import_zpl_file_def Let_def s1_def case_prod_beta)
        with k [OF w] show ?thesis by simp
      qed
    qed
  qed
qed

lemma refs_allocated_step: "refs_allocated s \<Longrightarrow> refs_allocated (step m s e)"
  by (cases e)
     (simp_all add: refs_allocated_add_object refs_allocated_delete_selected
        refs_allocated_simple refs_allocated_paste_object refs_allocated_bring_forward
        refs_allocated_send_backward refs_allocated_undo_redo refs_allocated_import_project
        refs_allocated_import_zpl_file)

lemma refs_allocated_run: "refs_allocated s \<Longrightarrow> refs_allocated (run s evs)"
proof (induction evs arbitrary: s)
  case Nil
  then show ?case by (simp add: run_def)
next
  case (Cons ev evs)
  obtain m e where ev: "ev = (m, e)" by (cases ev)
  have "refs_allocated (step m s e)" using Cons.prems by (rule refs_allocated_step)
  from Cons.IH [OF this] show ?case by (simp add: run_def ev)
qed

text \<open>In every state of every session the references of the scene are below \<open>next_ref\<close>:
  the hypothesis of the paste theorem holds wherever \<^verbatim>\<open>paste_object\<close> can be called.\<close>

lemma refs_allocated_session: "refs_allocated (run editor_init evs)"
  by (rule refs_allocated_run) (simp add: refs_allocated_def editor_init_fields)

end
